theory Spec2Isabelle
  imports Main "HOL-Library.Word"
begin

unbundle bit_operations_syntax

section \<open>Machine integers and big-endian byte order\<close>

text \<open>
  The Go sources use \<^verbatim>\<open>uint8\<close>, \<^verbatim>\<open>uint16\<close> and \<^verbatim>\<open>uint32\<close>; they are words here, so
  arithmetic wraps as in Go. Go's \<^verbatim>\<open>int\<close> (lengths, indices, \<^verbatim>\<open>keepDiff\<close>) is 64 bits wide
  on the supported platforms and never comes near its bounds in this code: it is \<open>int\<close>
  (or \<open>nat\<close> for a \<^verbatim>\<open>len(...)\<close>).
\<close>

type_synonym uint8 = "8 word"
type_synonym uint16 = "16 word"
type_synonym uint32 = "32 word"

text \<open>
  \<^verbatim>\<open>binary.Write(wr, binary.BigEndian, x)\<close> for an \<open>n\<close>-byte integer, and
  \<^verbatim>\<open>binary.BigEndian.Uint32\<close> / \<^verbatim>\<open>binary.Read\<close> for the way back.
\<close>

definition be_bytes :: "nat \<Rightarrow> 'a::len word \<Rightarrow> uint8 list" where
  "be_bytes n w = map (\<lambda>i. ucast (drop_bit (8 * i) w)) (rev [0..<n])"

definition be_word :: "uint8 list \<Rightarrow> 'a::len word" where
  "be_word bs = foldl (\<lambda>acc b. push_bit 8 acc OR ucast b) 0 bs"

text \<open>The Go slice expression \<^verbatim>\<open>xs[a:b]\<close>; every use below is behind a bounds check.\<close>

definition slice :: "'a list \<Rightarrow> nat \<Rightarrow> nat \<Rightarrow> 'a list" where
  "slice xs a b = take (b - a) (drop a xs)"

text \<open>A Go string is a byte sequence: \<^verbatim>\<open>[]byte(s)\<close> and \<^verbatim>\<open>string(bs)\<close>.\<close>

definition bytes_of_string :: "string \<Rightarrow> uint8 list" where
  "bytes_of_string s = map of_char s"

definition string_of_bytes :: "uint8 list \<Rightarrow> string" where
  "string_of_bytes bs = map (\<lambda>b. char_of (unat b)) bs"

section \<open>The standard library's \<^verbatim>\<open>netip.Addr\<close> and \<^verbatim>\<open>netip.Prefix\<close>\<close>

text \<open>
  \<^verbatim>\<open>structs.go\<close> stores the prefix of an IPv4 or IPv6 Prefix PDU as a \<^verbatim>\<open>netip.Prefix\<close>. The
  standard library keeps an address as a 128-bit value with a family tag (the zero
  \<^verbatim>\<open>Addr\<close>, IPv4, IPv6) and a prefix as an address with \<^verbatim>\<open>bitsPlusOne\<close> (0 for an invalid
  prefix). Zones cannot occur in a \<^verbatim>\<open>Prefix\<close> and are left out.
\<close>

datatype Addr = AddrZero | Addr4 "32 word" | Addr6 "128 word"

record Prefix =
  ip :: Addr
  bitsPlusOne :: uint8

definition AddrFromSlice :: "uint8 list \<Rightarrow> Addr option" where
  "AddrFromSlice bs =
     (if length bs = 4 then Some (Addr4 (be_word bs))
      else if length bs = 16 then Some (Addr6 (be_word bs))
      else None)"

definition Is4In6 :: "Addr \<Rightarrow> bool" where
  "Is4In6 a = (case a of Addr6 w \<Rightarrow> drop_bit 32 w = 0xffff | _ \<Rightarrow> False)"

text \<open>\<^verbatim>\<open>Addr.As4\<close> panics on the zero address and on a plain IPv6 address: \<open>None\<close>.\<close>

definition As4 :: "Addr \<Rightarrow> uint8 list option" where
  "As4 a =
     (case a of
        Addr4 w \<Rightarrow> Some (be_bytes 4 w)
      | Addr6 w \<Rightarrow> if Is4In6 a then Some (be_bytes 4 (ucast w :: 32 word)) else None
      | AddrZero \<Rightarrow> None)"

definition As16 :: "Addr \<Rightarrow> uint8 list" where
  "As16 a =
     (case a of
        Addr4 w \<Rightarrow> be_bytes 16 (push_bit 32 (0xffff :: 128 word) OR ucast w)
      | Addr6 w \<Rightarrow> be_bytes 16 w
      | AddrZero \<Rightarrow> be_bytes 16 (0 :: 128 word))"

definition BitLen :: "Addr \<Rightarrow> int" where
  "BitLen a = (case a of AddrZero \<Rightarrow> 0 | Addr4 _ \<Rightarrow> 32 | Addr6 _ \<Rightarrow> 128)"

definition PrefixFrom :: "Addr \<Rightarrow> int \<Rightarrow> Prefix" where
  "PrefixFrom a bits =
     \<lparr> ip = a,
       bitsPlusOne = (if a \<noteq> AddrZero \<and> 0 \<le> bits \<and> bits \<le> BitLen a
                      then word_of_int bits + 1 else 0) \<rparr>"

definition Bits :: "Prefix \<Rightarrow> int" where
  "Bits p = uint (bitsPlusOne p) - 1"

section \<open>Protocol data units (\<^verbatim>\<open>lib/structs.go\<close>)\<close>

definition messageMaxSize :: nat where "messageMaxSize = 262168"

definition PROTOCOL_VERSION_0 :: uint8 where "PROTOCOL_VERSION_0 = 0"
definition PROTOCOL_VERSION_1 :: uint8 where "PROTOCOL_VERSION_1 = 1"

definition PDU_ID_SERIAL_NOTIFY :: uint8 where "PDU_ID_SERIAL_NOTIFY = 0"
definition PDU_ID_SERIAL_QUERY :: uint8 where "PDU_ID_SERIAL_QUERY = 1"
definition PDU_ID_RESET_QUERY :: uint8 where "PDU_ID_RESET_QUERY = 2"
definition PDU_ID_CACHE_RESPONSE :: uint8 where "PDU_ID_CACHE_RESPONSE = 3"
definition PDU_ID_IPV4_PREFIX :: uint8 where "PDU_ID_IPV4_PREFIX = 4"
definition PDU_ID_IPV6_PREFIX :: uint8 where "PDU_ID_IPV6_PREFIX = 6"
definition PDU_ID_END_OF_DATA :: uint8 where "PDU_ID_END_OF_DATA = 7"
definition PDU_ID_CACHE_RESET :: uint8 where "PDU_ID_CACHE_RESET = 8"
definition PDU_ID_ROUTER_KEY :: uint8 where "PDU_ID_ROUTER_KEY = 9"
definition PDU_ID_ERROR_REPORT :: uint8 where "PDU_ID_ERROR_REPORT = 10"

definition FLAG_ADDED :: uint8 where "FLAG_ADDED = 1"
definition FLAG_REMOVED :: uint8 where "FLAG_REMOVED = 0"

definition PDU_ERROR_CORRUPTDATA :: uint16 where "PDU_ERROR_CORRUPTDATA = 0"
definition PDU_ERROR_INTERNALERR :: uint16 where "PDU_ERROR_INTERNALERR = 1"
definition PDU_ERROR_NODATA :: uint16 where "PDU_ERROR_NODATA = 2"
definition PDU_ERROR_BADPROTOVERSION :: uint16 where "PDU_ERROR_BADPROTOVERSION = 4"

text \<open>
  The constants \<^verbatim>\<open>PROTOCOL_VERSION_2\<close> and the struct \<^verbatim>\<open>PDUASPA\<close> are used by
  \<^verbatim>\<open>lib/server.go\<close> but declared in no file under \<^verbatim>\<open>src/\<close>; the value 2 and the id 11 are
  the spec's.
\<close>

definition PROTOCOL_VERSION_2 :: uint8 where
  \<comment> \<open>Modelled from the spec: the constant is missing from \<^verbatim>\<open>src/\<close>; the spec names the
      protocol versions 0, 1 and 2.\<close>
  "PROTOCOL_VERSION_2 = 2"

definition PDU_ID_ASPA :: uint8 where
  \<comment> \<open>Modelled from the spec: the constant is missing from \<^verbatim>\<open>src/\<close>; the spec's PDU table
      gives the ASPA PDU the type id 11.\<close>
  "PDU_ID_ASPA = 11"

text \<open>
  One constructor per struct implementing the \<^verbatim>\<open>PDU\<close> interface, the fields in the order
  of the struct declaration:
  \<^item> \<open>PDUSerialNotify Version SessionId SerialNumber\<close>
  \<^item> \<open>PDUSerialQuery Version SessionId SerialNumber\<close>
  \<^item> \<open>PDUResetQuery Version\<close>
  \<^item> \<open>PDUCacheResponse Version SessionId\<close>
  \<^item> \<open>PDUIPv4Prefix Prefix ASN Version MaxLen Flags\<close>
  \<^item> \<open>PDUIPv6Prefix Prefix ASN Version MaxLen Flags\<close>
  \<^item> \<open>PDUEndOfData Version SessionId SerialNumber RefreshInterval RetryInterval ExpireInterval\<close>
  \<^item> \<open>PDUCacheReset Version\<close>
  \<^item> \<open>PDURouterKey Version Flags SubjectKeyIdentifier ASN SubjectPublicKeyInfo\<close>
  \<^item> \<open>PDUErrorReport Version ErrorCode PDUCopy ErrorMsg\<close>
  \<^item> \<open>PDUASPA Version Flags AFIFlags ProviderASCount CustomerASNumber ProviderASNumbers\<close>
    (its fields as the struct literal in \<^verbatim>\<open>Client.SendData\<close> gives them).
\<close>

datatype PDU =
    PDUSerialNotify uint8 uint16 uint32
  | PDUSerialQuery uint8 uint16 uint32
  | PDUResetQuery uint8
  | PDUCacheResponse uint8 uint16
  | PDUIPv4Prefix Prefix uint32 uint8 uint8 uint8
  | PDUIPv6Prefix Prefix uint32 uint8 uint8 uint8
  | PDUEndOfData uint8 uint16 uint32 uint32 uint32 uint32
  | PDUCacheReset uint8
  | PDURouterKey uint8 uint8 "uint8 list" uint32 "uint8 list"
  | PDUErrorReport uint8 uint16 "uint8 list" string
  | PDUASPA uint8 uint8 uint8 uint16 uint32 "uint32 list"

fun GetVersion :: "PDU \<Rightarrow> uint8" where
  "GetVersion (PDUSerialNotify v _ _) = v"
| "GetVersion (PDUSerialQuery v _ _) = v"
| "GetVersion (PDUResetQuery v) = v"
| "GetVersion (PDUCacheResponse v _) = v"
| "GetVersion (PDUIPv4Prefix _ _ v _ _) = v"
| "GetVersion (PDUIPv6Prefix _ _ v _ _) = v"
| "GetVersion (PDUEndOfData v _ _ _ _ _) = v"
| "GetVersion (PDUCacheReset v) = v"
| "GetVersion (PDURouterKey v _ _ _ _) = v"
| "GetVersion (PDUErrorReport v _ _ _) = v"
| "GetVersion (PDUASPA v _ _ _ _ _) = v"

fun SetVersion :: "PDU \<Rightarrow> uint8 \<Rightarrow> PDU" where
  "SetVersion (PDUSerialNotify _ s n) v = PDUSerialNotify v s n"
| "SetVersion (PDUSerialQuery _ s n) v = PDUSerialQuery v s n"
| "SetVersion (PDUResetQuery _) v = PDUResetQuery v"
| "SetVersion (PDUCacheResponse _ s) v = PDUCacheResponse v s"
| "SetVersion (PDUIPv4Prefix p a _ m f) v = PDUIPv4Prefix p a v m f"
| "SetVersion (PDUIPv6Prefix p a _ m f) v = PDUIPv6Prefix p a v m f"
| "SetVersion (PDUEndOfData _ s n r t e) v = PDUEndOfData v s n r t e"
| "SetVersion (PDUCacheReset _) v = PDUCacheReset v"
| "SetVersion (PDURouterKey _ f ski a spki) v = PDURouterKey v f ski a spki"
| "SetVersion (PDUErrorReport _ c cp msg) v = PDUErrorReport v c cp msg"
| "SetVersion (PDUASPA _ f afi n c ps) v = PDUASPA v f afi n c ps"

fun GetType :: "PDU \<Rightarrow> uint8" where
  "GetType (PDUSerialNotify _ _ _) = PDU_ID_SERIAL_NOTIFY"
| "GetType (PDUSerialQuery _ _ _) = PDU_ID_SERIAL_QUERY"
| "GetType (PDUResetQuery _) = PDU_ID_RESET_QUERY"
| "GetType (PDUCacheResponse _ _) = PDU_ID_CACHE_RESPONSE"
| "GetType (PDUIPv4Prefix _ _ _ _ _) = PDU_ID_IPV4_PREFIX"
| "GetType (PDUIPv6Prefix _ _ _ _ _) = PDU_ID_IPV6_PREFIX"
| "GetType (PDUEndOfData _ _ _ _ _ _) = PDU_ID_END_OF_DATA"
| "GetType (PDUCacheReset _) = PDU_ID_CACHE_RESET"
| "GetType (PDURouterKey _ _ _ _ _) = PDU_ID_ROUTER_KEY"
| "GetType (PDUErrorReport _ _ _ _) = PDU_ID_ERROR_REPORT"
| "GetType (PDUASPA _ _ _ _ _ _) = PDU_ID_ASPA"

text \<open>
  \<^verbatim>\<open>IsCorrectPDUVersion\<close>: the type switch has the single case \<^verbatim>\<open>*PDURouterKey\<close>.
\<close>

definition IsCorrectPDUVersion :: "PDU \<Rightarrow> uint8 \<Rightarrow> bool" where
  "IsCorrectPDUVersion pdu version' =
     (if version' > 1 then False
      else (case pdu of
              PDURouterKey _ _ _ _ _ \<Rightarrow> (if version' = 0 then False else True)
            | _ \<Rightarrow> True))"


subsection \<open>Encoding: the \<^verbatim>\<open>Write\<close> methods and \<^verbatim>\<open>Bytes\<close>\<close>

text \<open>
  Every \<^verbatim>\<open>Bytes\<close> method runs \<^verbatim>\<open>Write\<close> on an empty buffer and returns the buffer. The
  result is \<open>None\<close> where \<^verbatim>\<open>Write\<close> panics (\<^verbatim>\<open>As4\<close> on an address that is not IPv4).
  \<^verbatim>\<open>uint32(n)\<close> of a length is \<open>word_of_nat n\<close>.
\<close>

definition PDUSerialNotify_Bytes :: "uint8 \<Rightarrow> uint16 \<Rightarrow> uint32 \<Rightarrow> uint8 list" where
  "PDUSerialNotify_Bytes v sess serial =
     [v, PDU_ID_SERIAL_NOTIFY] @ be_bytes 2 sess @ be_bytes 4 (12 :: uint32) @ be_bytes 4 serial"

definition PDUSerialQuery_Bytes :: "uint8 \<Rightarrow> uint16 \<Rightarrow> uint32 \<Rightarrow> uint8 list" where
  "PDUSerialQuery_Bytes v sess serial =
     [v, PDU_ID_SERIAL_QUERY] @ be_bytes 2 sess @ be_bytes 4 (12 :: uint32) @ be_bytes 4 serial"

definition PDUResetQuery_Bytes :: "uint8 \<Rightarrow> uint8 list" where
  "PDUResetQuery_Bytes v =
     [v, PDU_ID_RESET_QUERY] @ be_bytes 2 (0 :: uint16) @ be_bytes 4 (8 :: uint32)"

definition PDUCacheResponse_Bytes :: "uint8 \<Rightarrow> uint16 \<Rightarrow> uint8 list" where
  "PDUCacheResponse_Bytes v sess =
     [v, PDU_ID_CACHE_RESPONSE] @ be_bytes 2 sess @ be_bytes 4 (8 :: uint32)"

definition PDUIPv4Prefix_Bytes ::
  "Prefix \<Rightarrow> uint32 \<Rightarrow> uint8 \<Rightarrow> uint8 \<Rightarrow> uint8 \<Rightarrow> uint8 list option" where
  "PDUIPv4Prefix_Bytes pfx asn v maxlen flags =
     (case As4 (ip pfx) of
        None \<Rightarrow> None
      | Some a4 \<Rightarrow>
          Some ([v, PDU_ID_IPV4_PREFIX] @ be_bytes 2 (0 :: uint16) @ be_bytes 4 (20 :: uint32)
                @ [flags, word_of_int (Bits pfx), maxlen, 0] @ a4 @ be_bytes 4 asn))"

definition PDUIPv6Prefix_Bytes ::
  "Prefix \<Rightarrow> uint32 \<Rightarrow> uint8 \<Rightarrow> uint8 \<Rightarrow> uint8 \<Rightarrow> uint8 list" where
  "PDUIPv6Prefix_Bytes pfx asn v maxlen flags =
     [v, PDU_ID_IPV6_PREFIX] @ be_bytes 2 (0 :: uint16) @ be_bytes 4 (32 :: uint32)
     @ [flags, word_of_int (Bits pfx), maxlen, 0] @ As16 (ip pfx) @ be_bytes 4 asn"

definition PDUEndOfData_Bytes ::
  "uint8 \<Rightarrow> uint16 \<Rightarrow> uint32 \<Rightarrow> uint32 \<Rightarrow> uint32 \<Rightarrow> uint32 \<Rightarrow> uint8 list" where
  "PDUEndOfData_Bytes v sess serial refresh retry expire =
     [v, PDU_ID_END_OF_DATA] @ be_bytes 2 sess
     @ (if v = PROTOCOL_VERSION_0
        then be_bytes 4 (12 :: uint32) @ be_bytes 4 serial
        else be_bytes 4 (24 :: uint32) @ be_bytes 4 serial
             @ be_bytes 4 refresh @ be_bytes 4 retry @ be_bytes 4 expire)"

definition PDUCacheReset_Bytes :: "uint8 \<Rightarrow> uint8 list" where
  "PDUCacheReset_Bytes v =
     [v, PDU_ID_CACHE_RESET] @ be_bytes 2 (0 :: uint16) @ be_bytes 4 (8 :: uint32)"

text \<open>A Router Key whose SKI is not 20 bytes long writes nothing.\<close>

definition PDURouterKey_Bytes ::
  "uint8 \<Rightarrow> uint8 \<Rightarrow> uint8 list \<Rightarrow> uint32 \<Rightarrow> uint8 list \<Rightarrow> uint8 list" where
  "PDURouterKey_Bytes v flags ski asn spki =
     (if length ski \<noteq> 20 then []
      else [v, PDU_ID_ROUTER_KEY, flags, 0]
           @ be_bytes 4 (word_of_nat (32 + length spki) :: uint32)
           @ ski @ be_bytes 4 asn @ spki)"

definition PDUErrorReport_Bytes :: "uint8 \<Rightarrow> uint16 \<Rightarrow> uint8 list \<Rightarrow> string \<Rightarrow> uint8 list" where
  "PDUErrorReport_Bytes v code pduCopy errorMsg =
     (let nonnull = (errorMsg \<noteq> []);
          addlen = (if nonnull then 1 else 0 :: nat)
      in [v, PDU_ID_ERROR_REPORT] @ be_bytes 2 code
         @ be_bytes 4 (word_of_nat (12 + length pduCopy + 4 + length errorMsg + addlen) :: uint32)
         @ be_bytes 4 (word_of_nat (length pduCopy) :: uint32)
         @ pduCopy
         @ be_bytes 4 (word_of_nat (length errorMsg + addlen) :: uint32)
         @ (if nonnull then bytes_of_string errorMsg @ [0] else []))"

definition PDUASPA_Bytes ::
  "uint8 \<Rightarrow> uint8 \<Rightarrow> uint8 \<Rightarrow> uint16 \<Rightarrow> uint32 \<Rightarrow> uint32 list \<Rightarrow> uint8 list" where
  \<comment> \<open>Modelled from the spec: \<^verbatim>\<open>PDUASPA\<close> and its \<^verbatim>\<open>Write\<close> method are missing from
      \<^verbatim>\<open>src/\<close>. The spec's PDU table: the 8-byte header (version, type 11, a two-byte
      type-specific field, the total length), then flags, AFI flag, provider count,
      customer ASN and the provider ASNs; the field widths are those of the struct
      literal in \<^verbatim>\<open>Client.SendData\<close>. No claim below depends on this layout.\<close>
  "PDUASPA_Bytes v flags afi cnt customer providers =
     [v, PDU_ID_ASPA] @ be_bytes 2 (0 :: uint16)
     @ be_bytes 4 (word_of_nat (16 + 4 * length providers) :: uint32)
     @ [flags, afi] @ be_bytes 2 cnt @ be_bytes 4 customer
     @ concat (map (be_bytes 4) providers)"

fun Bytes :: "PDU \<Rightarrow> uint8 list option" where
  "Bytes (PDUSerialNotify v s n) = Some (PDUSerialNotify_Bytes v s n)"
| "Bytes (PDUSerialQuery v s n) = Some (PDUSerialQuery_Bytes v s n)"
| "Bytes (PDUResetQuery v) = Some (PDUResetQuery_Bytes v)"
| "Bytes (PDUCacheResponse v s) = Some (PDUCacheResponse_Bytes v s)"
| "Bytes (PDUIPv4Prefix p a v m f) = PDUIPv4Prefix_Bytes p a v m f"
| "Bytes (PDUIPv6Prefix p a v m f) = Some (PDUIPv6Prefix_Bytes p a v m f)"
| "Bytes (PDUEndOfData v s n r t e) = Some (PDUEndOfData_Bytes v s n r t e)"
| "Bytes (PDUCacheReset v) = Some (PDUCacheReset_Bytes v)"
| "Bytes (PDURouterKey v f ski a spki) = Some (PDURouterKey_Bytes v f ski a spki)"
| "Bytes (PDUErrorReport v c cp msg) = Some (PDUErrorReport_Bytes v c cp msg)"
| "Bytes (PDUASPA v f afi n c ps) = Some (PDUASPA_Bytes v f afi n c ps)"

subsection \<open>Decoding: \<^verbatim>\<open>Decode\<close> and \<^verbatim>\<open>DecodeBytes\<close>\<close>

text \<open>
  The reader is the list of bytes still unread; \<^verbatim>\<open>binary.Read\<close> of \<open>n\<close> bytes fails with
  an end-of-file error when fewer are left. The errors are values; \<open>ErrWrongLength t\<close> is
  the "wrong length for ... PDU" error of the PDU type \<open>t\<close>.
\<close>

datatype DecodeError =
    ErrRead
  | ErrLengthTooSmall
  | ErrLengthTooBig
  | ErrWrongLength uint8
  | ErrIPSlice
  | ErrCouldNotDecode

definition decode_body :: "uint8 \<Rightarrow> uint8 \<Rightarrow> uint16 \<Rightarrow> uint8 list \<Rightarrow> DecodeError + PDU" where
  "decode_body pver pduType sessionId toread =
    (if pduType = PDU_ID_SERIAL_NOTIFY then
       (if length toread \<noteq> 4 then Inl (ErrWrongLength pduType)
        else Inr (PDUSerialNotify pver sessionId (be_word toread)))
     else if pduType = PDU_ID_SERIAL_QUERY then
       (if length toread \<noteq> 4 then Inl (ErrWrongLength pduType)
        else Inr (PDUSerialQuery pver sessionId (be_word toread)))
     else if pduType = PDU_ID_RESET_QUERY then
       (if length toread \<noteq> 0 then Inl (ErrWrongLength pduType)
        else Inr (PDUResetQuery pver))
     else if pduType = PDU_ID_CACHE_RESPONSE then
       (if length toread \<noteq> 0 then Inl (ErrWrongLength pduType)
        else Inr (PDUCacheResponse pver sessionId))
     else if pduType = PDU_ID_IPV4_PREFIX then
       (if length toread \<noteq> 12 then Inl (ErrWrongLength pduType)
        else let prefixLen = uint (toread ! 1) in
          (case AddrFromSlice (slice toread 4 8) of
             None \<Rightarrow> Inl ErrIPSlice
           | Some addr \<Rightarrow>
               Inr (PDUIPv4Prefix (PrefixFrom addr prefixLen) (be_word (drop 8 toread))
                      pver (toread ! 2) (toread ! 0))))
     else if pduType = PDU_ID_IPV6_PREFIX then
       (if length toread \<noteq> 24 then Inl (ErrWrongLength pduType)
        else let prefixLen = uint (toread ! 1) in
          (case AddrFromSlice (slice toread 4 20) of
             None \<Rightarrow> Inl ErrIPSlice
           | Some addr \<Rightarrow>
               Inr (PDUIPv6Prefix (PrefixFrom addr prefixLen) (be_word (drop 20 toread))
                      pver (toread ! 2) (toread ! 0))))
     else if pduType = PDU_ID_END_OF_DATA then
       (if length toread \<noteq> 4 \<and> length toread \<noteq> 16 then Inl (ErrWrongLength pduType)
        else if length toread = 4 then
          Inr (PDUEndOfData pver sessionId (be_word toread) 0 0 0)
        else
          Inr (PDUEndOfData pver sessionId (be_word (slice toread 0 4))
                 (be_word (slice toread 4 8)) (be_word (slice toread 8 12))
                 (be_word (slice toread 12 16))))
     else if pduType = PDU_ID_CACHE_RESET then
       (if length toread \<noteq> 0 then Inl (ErrWrongLength pduType)
        else Inr (PDUCacheReset pver))
     else if pduType = PDU_ID_ROUTER_KEY then
       (if length toread < 28 then Inl (ErrWrongLength pduType)
        else Inr (PDURouterKey pver (ucast (drop_bit 8 sessionId)) (slice toread 0 20)
                    (be_word (slice toread 20 24)) (drop 24 toread)))
     else if pduType = PDU_ID_ERROR_REPORT then
       (if length toread < 8 then Inl (ErrWrongLength pduType)
        else let lenPdu = (be_word (slice toread 0 4) :: uint32) in
          if int (length toread) < uint lenPdu + 8 then Inl (ErrWrongLength pduType)
          else let errPdu = slice toread 4 (unat (lenPdu + 4));
                   lenErrText =
                     (be_word (slice toread (unat (lenPdu + 4)) (unat (lenPdu + 8))) :: uint32)
               in if int (length toread) < uint lenPdu + 8 + uint lenErrText
                  then Inl (ErrWrongLength pduType)
                  else let errMsg = string_of_bytes
                             (slice toread (unat (lenPdu + 8)) (unat (lenPdu + 8 + lenErrText)))
                       in Inr (PDUErrorReport pver sessionId errPdu errMsg))
     else Inl ErrCouldNotDecode)"

definition Decode :: "uint8 list \<Rightarrow> DecodeError + PDU" where
  "Decode rdr =
     (case rdr of
        pver # pduType # s1 # s2 # l1 # l2 # l3 # l4 # rest \<Rightarrow>
          let sessionId = (be_word [s1, s2] :: uint16);
              length' = (be_word [l1, l2, l3, l4] :: uint32)
          in if length' < 8 then Inl ErrLengthTooSmall
             else if unat length' > messageMaxSize then Inl ErrLengthTooBig
             else if length rest < unat length' - 8 then Inl ErrRead
             else decode_body pver pduType sessionId (take (unat length' - 8) rest)
      | _ \<Rightarrow> Inl ErrRead)"

definition DecodeBytes :: "uint8 list \<Rightarrow> DecodeError + PDU" where
  "DecodeBytes b = Decode b"


section \<open>Sendable data (\<^verbatim>\<open>lib/server.go\<close>)\<close>

subsection \<open>Text forms used by the hash keys\<close>

text \<open>
  \<^verbatim>\<open>HashKey\<close> formats its object with \<^verbatim>\<open>fmt.Sprintf\<close>. The verbs are modelled as far as the
  repository uses them: \<^verbatim>\<open>%v\<close> of an unsigned integer (decimal), \<^verbatim>\<open>%x\<close> of an integer and of
  a byte slice (lower-case hexadecimal), \<^verbatim>\<open>%v\<close> of a slice of integers.
\<close>

function uitoa :: "nat \<Rightarrow> string" where
  "uitoa n = (if n < 10 then [''0123456789'' ! n]
              else uitoa (n div 10) @ [''0123456789'' ! (n mod 10)])"
  by pat_completeness auto
termination
  by (relation "measure id") auto

function hex_nat :: "nat \<Rightarrow> string" where
  "hex_nat n = (if n < 16 then [''0123456789abcdef'' ! n]
                else hex_nat (n div 16) @ [''0123456789abcdef'' ! (n mod 16)])"
  by pat_completeness auto
termination
  by (relation "measure id") auto

definition hex_byte :: "uint8 \<Rightarrow> string" where
  "hex_byte b = [''0123456789abcdef'' ! (unat b div 16), ''0123456789abcdef'' ! (unat b mod 16)]"

definition hex_bytes :: "uint8 list \<Rightarrow> string" where
  "hex_bytes bs = concat (map hex_byte bs)"

fun join :: "string \<Rightarrow> string list \<Rightarrow> string" where
  "join sep [] = []"
| "join sep [x] = x"
| "join sep (x # y # ys) = x @ sep @ join sep (y # ys)"

definition fmt_uint32s :: "uint32 list \<Rightarrow> string" where
  "fmt_uint32s xs = ''['' @ join '' '' (map (\<lambda>x. uitoa (unat x)) xs) @ '']''"

subsection \<open>The standard library's \<^verbatim>\<open>net.IPNet\<close>\<close>

text \<open>
  A VRP holds its prefix as a \<^verbatim>\<open>net.IPNet\<close>: two byte slices, the address and the mask.
  \<^verbatim>\<open>To4\<close>, \<^verbatim>\<open>To16\<close>, \<^verbatim>\<open>networkNumberAndMask\<close> and \<^verbatim>\<open>simpleMaskLength\<close> follow the standard
  library; a \<^verbatim>\<open>nil\<close> result is \<open>None\<close>. \<open>IPNet_String\<close> stands for \<^verbatim>\<open>IPNet.String\<close>: it
  prints an IPv6 address as its eight groups without the library's \<^verbatim>\<open>::\<close> shortening, which
  changes no comparison of two keys.
\<close>

record IPNet =
  IP :: "uint8 list"
  Mask :: "uint8 list"

definition To4 :: "uint8 list \<Rightarrow> uint8 list option" where
  "To4 a =
     (if length a = 4 then Some a
      else if length a = 16 \<and> (\<forall>b \<in> set (take 10 a). b = 0) \<and> a ! 10 = 0xff \<and> a ! 11 = 0xff
      then Some (drop 12 a)
      else None)"

definition To16 :: "uint8 list \<Rightarrow> uint8 list option" where
  "To16 a =
     (if length a = 4 then Some ([0, 0, 0, 0, 0, 0, 0, 0, 0, 0, 0xff, 0xff] @ a)
      else if length a = 16 then Some a
      else None)"

definition networkNumberAndMask :: "IPNet \<Rightarrow> (uint8 list \<times> uint8 list) option" where
  "networkNumberAndMask n =
     (let ip0 = (case To4 (IP n) of Some a \<Rightarrow> Some a
                 | None \<Rightarrow> if length (IP n) = 16 then Some (IP n) else None)
      in case ip0 of
           None \<Rightarrow> None
         | Some a \<Rightarrow>
             let m = Mask n in
             if length m = 4 then (if length a \<noteq> 4 then None else Some (a, m))
             else if length m = 16 then (if length a = 4 then Some (a, drop 12 m) else Some (a, m))
             else None)"

fun leading_ones :: "bool list \<Rightarrow> nat" where
  "leading_ones [] = 0"
| "leading_ones (b # bs) = (if b then Suc (leading_ones bs) else 0)"

fun simpleMaskLength :: "uint8 list \<Rightarrow> int" where
  "simpleMaskLength [] = 0"
| "simpleMaskLength (v # rest) =
     (if v = 0xff then
        (let r = simpleMaskLength rest in if r = -1 then -1 else 8 + r)
      else
        (let k = leading_ones (map (bit v) [7, 6, 5, 4, 3, 2, 1, 0]) in
         if push_bit k v \<noteq> 0 \<or> (\<exists>b \<in> set rest. b \<noteq> 0) then -1 else int k))"

definition IP_String :: "uint8 list \<Rightarrow> string" where
  "IP_String a =
     (case To4 a of
        Some a4 \<Rightarrow> join ''.'' (map (\<lambda>b. uitoa (unat b)) a4)
      | None \<Rightarrow>
          if length a = 16
          then join '':'' (map (\<lambda>i. hex_nat (unat (a ! (2 * i)) * 256 + unat (a ! (2 * i + 1))))
                             [0, 1, 2, 3, 4, 5, 6, 7])
          else ''?'' @ hex_bytes a)"

definition IPNet_String :: "IPNet \<Rightarrow> string" where
  "IPNet_String n =
     (case networkNumberAndMask n of
        None \<Rightarrow> ''<nil>''
      | Some (nn, m) \<Rightarrow>
          let l = simpleMaskLength m in
          if l = -1 then IP_String nn @ ''/'' @ hex_bytes m
          else IP_String nn @ ''/'' @ uitoa (nat l))"

subsection \<open>The three kinds of \<^verbatim>\<open>SendableData\<close>\<close>

text \<open>
  One constructor per struct implementing the interface, the fields in declaration order:
  \<^item> \<open>VRP Prefix MaxLen ASN Flags\<close>
  \<^item> \<open>BgpsecKey ASN Pubkey Ski Flags\<close>
  \<^item> \<open>VAP Flags AFI CustomerASN Providers\<close>
\<close>

datatype SendableData =
    VRP IPNet uint8 uint32 uint8
  | BgpsecKey uint32 "uint8 list" "uint8 list" uint8
  | VAP uint8 uint8 uint32 "uint32 list"

fun HashKey :: "SendableData \<Rightarrow> string" where
  "HashKey (VRP pfx maxlen asn _) =
     IPNet_String pfx @ ''-'' @ uitoa (unat maxlen) @ ''-'' @ uitoa (unat asn)"
| "HashKey (BgpsecKey asn pubkey ski _) =
     uitoa (unat asn) @ ''-'' @ hex_bytes ski @ ''-'' @ hex_bytes pubkey"
| "HashKey (VAP _ afi customer providers) =
     uitoa (unat customer) @ ''-'' @ hex_nat (unat afi) @ ''-'' @ fmt_uint32s providers"

fun Type :: "SendableData \<Rightarrow> string" where
  "Type (VRP _ _ _ _) = ''VRP''"
| "Type (BgpsecKey _ _ _ _) = ''BGPsecKey''"
| "Type (VAP _ _ _ _) = ''ASPA''"

text \<open>\<^verbatim>\<open>Copy\<close> allocates a new object with the same field values.\<close>

fun Copy :: "SendableData \<Rightarrow> SendableData" where
  "Copy (VRP pfx maxlen asn flags) = VRP \<lparr> IP = IP pfx, Mask = Mask pfx \<rparr> maxlen asn flags"
| "Copy (BgpsecKey asn pubkey ski flags) = BgpsecKey asn pubkey ski flags"
| "Copy (VAP flags afi customer providers) = VAP flags afi customer ([] @ providers)"

fun SetFlag :: "SendableData \<Rightarrow> uint8 \<Rightarrow> SendableData" where
  "SetFlag (VRP pfx maxlen asn _) f = VRP pfx maxlen asn f"
| "SetFlag (BgpsecKey asn pubkey ski _) f = BgpsecKey asn pubkey ski f"
| "SetFlag (VAP _ afi customer providers) f = VAP f afi customer providers"

fun GetFlag :: "SendableData \<Rightarrow> uint8" where
  "GetFlag (VRP _ _ _ f) = f"
| "GetFlag (BgpsecKey _ _ _ f) = f"
| "GetFlag (VAP f _ _ _) = f"

subsection \<open>Differences between two lists of objects\<close>

text \<open>
  \<^verbatim>\<open>ConvertSDListToMap\<close> fills a Go map in list order, so a later object replaces an
  earlier one with the same key.
\<close>

definition ConvertSDListToMap :: "SendableData list \<Rightarrow> (string \<rightharpoonup> SendableData)" where
  "ConvertSDListToMap SDs = foldl (\<lambda>sdMap v. sdMap(HashKey v \<mapsto> v)) Map.empty SDs"

definition ComputeDiff ::
  "SendableData list \<Rightarrow> SendableData list
     \<Rightarrow> SendableData list \<times> SendableData list \<times> SendableData list" where
  "ComputeDiff newSDs prevSDs =
     (let newSDsMap = ConvertSDListToMap newSDs;
          prevSDsMap = ConvertSDListToMap prevSDs;
          added = concat (map (\<lambda>vrp. if prevSDsMap (HashKey vrp) = None
                                       then [SetFlag (Copy vrp) FLAG_ADDED] else []) newSDs);
          removed = concat (map (\<lambda>vrp. if newSDsMap (HashKey vrp) = None
                                         then [SetFlag (Copy vrp) FLAG_REMOVED] else []) prevSDs);
          unchanged = concat (map (\<lambda>vrp. if newSDsMap (HashKey vrp) = None
                                           then [] else [Copy vrp]) prevSDs)
      in (added, removed, unchanged))"

definition ApplyDiff :: "SendableData list \<Rightarrow> SendableData list \<Rightarrow> SendableData list" where
  "ApplyDiff diff prevSDs =
     (let diffMap = ConvertSDListToMap diff;
          prevSDsMap = ConvertSDListToMap prevSDs;
          kept = concat (map (\<lambda>vrp. if diffMap (HashKey vrp) = None then [Copy vrp] else [])
                           prevSDs);
          changed = concat (map (\<lambda>vrp.
                       if GetFlag vrp = FLAG_ADDED then [Copy vrp]
                       else if GetFlag vrp = FLAG_REMOVED then
                         (case prevSDsMap (HashKey vrp) of
                            None \<Rightarrow> [Copy vrp]
                          | Some cvrp \<Rightarrow> if GetFlag cvrp = FLAG_REMOVED then [Copy vrp] else [])
                       else []) diff)
      in kept @ changed)"


section \<open>Clients and the server (\<^verbatim>\<open>lib/server.go\<close>)\<close>

text \<open>
  The model follows one goroutine at a time: locks are left out, and a method that
  changes the server or a client returns the changed state. A client is known to the
  server by its pointer, here the number \<open>ident\<close>. The channel \<^verbatim>\<open>transmits\<close> is the list of
  PDUs put on it so far, oldest first (its capacity of 256 and the writer goroutine that
  drains it are not modelled); \<^verbatim>\<open>quit\<close> is the list of shutdown signals offered to the
  writer. The fields \<^verbatim>\<open>handler\<close> and \<^verbatim>\<open>simpleHandler\<close> of a client hold the server whenever
  they are not \<^verbatim>\<open>nil\<close> (\<^verbatim>\<open>acceptClientTCP\<close> passes the server for both), so they are
  booleans: \<open>True\<close> for the server, \<open>False\<close> for \<^verbatim>\<open>nil\<close>. Connections, readers, writers and
  the logger are left out.
\<close>

record Client =
  ident :: nat
  connected :: bool
  version :: uint8
  versionset :: bool
  cl_handler :: bool
  cl_simpleHandler :: bool
  curserial :: uint32
  transmits :: "PDU list"
  quit :: "bool list"
  cl_enforceVersion :: bool
  disableVersionCheck :: bool
  refreshInterval :: uint32
  retryInterval :: uint32
  expireInterval :: uint32
  dontSendBGPsecKeys :: bool
  dontSendASPA :: bool

text \<open>
  The server's own \<^verbatim>\<open>handler\<close> (an \<^verbatim>\<open>RTRServerEventHandler\<close>) is code of the embedding
  program. The model records each call made to it, with the client as the callee sees
  it at that moment, and takes the callee to leave the client as it is.
\<close>

datatype HandlerCall =
    CallClientConnected Client
  | CallClientDisconnected Client
  | CallHandlePDU Client PDU

text \<open>
  \<^verbatim>\<open>simpleHandler\<close> is \<open>True\<close> when the server holds a \<^verbatim>\<open>DefaultRTREventHandler\<close> whose
  \<^verbatim>\<open>sdManager\<close> is the server itself (the repository's only implementations of the two
  interfaces), \<open>False\<close> for \<^verbatim>\<open>nil\<close>. \<^verbatim>\<open>sdMapSerial\<close> is a Go map from serial to index.
\<close>

record Server =
  baseVersion :: uint8
  clients :: "nat list"
  sessId :: uint16
  srv_connected :: int
  maxconn :: int
  handler :: bool
  handlerCalls :: "HandlerCall list"
  simpleHandler :: bool
  enforceVersion :: bool
  sdListDiff :: "SendableData list list"
  sdMapSerial :: "uint32 \<rightharpoonup> int"
  sdListSerial :: "uint32 list"
  sdCurrent :: "SendableData list"
  sdCurrentSerial :: uint32
  keepDiff :: int
  manualserial :: bool
  pduRefreshInterval :: uint32
  pduRetryInterval :: uint32
  pduExpireInterval :: uint32

record ServerConfiguration =
  MaxConn :: int
  ProtocolVersion :: uint8
  EnforceVersion :: bool
  KeepDifference :: int
  SessId :: int
  RefreshInterval :: uint32
  RetryInterval :: uint32
  ExpireInterval :: uint32

text \<open>
  \<^verbatim>\<open>NewServer\<close> draws the session id at random (\<^verbatim>\<open>GenerateSessionId\<close>): it is the argument
  \<open>sessid\<close>. The other two arguments say whether a handler is given.
\<close>

definition NewServer :: "ServerConfiguration \<Rightarrow> uint16 \<Rightarrow> bool \<Rightarrow> bool \<Rightarrow> Server" where
  "NewServer configuration sessid handler' simpleHandler' =
     \<lparr> baseVersion = ProtocolVersion configuration,
       clients = [],
       sessId = sessid,
       srv_connected = 0,
       maxconn = MaxConn configuration,
       handler = handler',
       handlerCalls = [],
       simpleHandler = simpleHandler',
       enforceVersion = EnforceVersion configuration,
       sdListDiff = [],
       sdMapSerial = Map.empty,
       sdListSerial = [],
       sdCurrent = [],
       sdCurrentSerial = 0,
       keepDiff = KeepDifference configuration,
       manualserial = False,
       pduRefreshInterval =
         (if RefreshInterval configuration \<noteq> 0 then RefreshInterval configuration else 3600),
       pduRetryInterval =
         (if RetryInterval configuration \<noteq> 0 then RetryInterval configuration else 600),
       pduExpireInterval =
         (if ExpireInterval configuration \<noteq> 0 then ExpireInterval configuration else 7200) \<rparr>"

subsection \<open>The store of sendable data\<close>

definition SetManualSerial :: "Server \<Rightarrow> bool \<Rightarrow> Server" where
  "SetManualSerial s v = s\<lparr>manualserial := v\<rparr>"

definition GetSessionId :: "Server \<Rightarrow> uint16" where
  "GetSessionId s = sessId s"

definition GetCurrentSDs :: "Server \<Rightarrow> SendableData list \<times> bool" where
  "GetCurrentSDs s = (sdCurrent s, True)"

text \<open>
  \<^verbatim>\<open>getSDsSerialDiff\<close> indexes \<^verbatim>\<open>sdListDiff\<close> with the index found in the map; Go panics
  when the index is out of range, which is the result \<open>None\<close>.
\<close>

definition getSDsSerialDiff :: "Server \<Rightarrow> uint32 \<Rightarrow> (SendableData list \<times> bool) option" where
  "getSDsSerialDiff s serial =
     (if serial = sdCurrentSerial s then Some ([], True)
      else (case sdMapSerial s serial of
              None \<Rightarrow> Some ([], False)
            | Some index \<Rightarrow>
                if 0 \<le> index \<and> nat index < length (sdListDiff s)
                then Some (sdListDiff s ! nat index, True)
                else None))"

definition GetSDsSerialDiff :: "Server \<Rightarrow> uint32 \<Rightarrow> (SendableData list \<times> bool) option" where
  "GetSDsSerialDiff s serial = getSDsSerialDiff s serial"

definition getCurrentSerial :: "Server \<Rightarrow> uint32 \<times> bool" where
  "getCurrentSerial s = (sdCurrentSerial s, length (sdListSerial s) > 0)"

definition GetCurrentSerial :: "Server \<Rightarrow> uint16 \<Rightarrow> uint32 \<times> bool" where
  "GetCurrentSerial s sessId' = getCurrentSerial s"

definition generateSerial :: "Server \<Rightarrow> uint32" where
  "generateSerial s =
     (if \<not> manualserial s \<and> length (sdListSerial s) > 0
      then last (sdListSerial s) + 1
      else sdCurrentSerial s)"

definition setSerial :: "Server \<Rightarrow> uint32 \<Rightarrow> Server" where
  "setSerial s serial = s\<lparr>sdCurrentSerial := serial\<rparr>"

definition SetSerial :: "Server \<Rightarrow> uint32 \<Rightarrow> Server" where
  "SetSerial s serial = setSerial s serial"

definition CountVRPs :: "Server \<Rightarrow> nat" where
  "CountVRPs s = length (sdCurrent s)"

definition addSerial :: "Server \<Rightarrow> uint32 \<Rightarrow> uint32 list \<times> Server" where
  "addSerial s serial =
     (if int (length (sdListSerial s)) \<ge> keepDiff s \<and> keepDiff s > 0
      then (let removeDiff = nat (int (length (sdListSerial s)) - keepDiff s)
            in (take removeDiff (sdListSerial s),
                s\<lparr>sdListSerial := drop removeDiff (sdListSerial s) @ [serial]\<rparr>))
      else ([], s\<lparr>sdListSerial := sdListSerial s @ [serial]\<rparr>))"

definition AddSDsDiff :: "Server \<Rightarrow> SendableData list \<Rightarrow> Server" where
  "AddSDsDiff s diff =
     (let nextDiff0 = map (\<lambda>prevVrps. ApplyDiff diff prevVrps) (sdListDiff s);
          newVrpCurrent = ApplyDiff diff (sdCurrent s);
          curserial = fst (getCurrentSerial s);
          newserial = generateSerial s
      in case addSerial s newserial of
           (removed, s1) \<Rightarrow>
             let nextDiff1 = nextDiff0 @ [diff];
                 nextDiff = (if int (length nextDiff1) \<ge> keepDiff s1 \<and> keepDiff s1 > 0
                             then drop (length removed) nextDiff1 else nextDiff1);
                 m1 = (sdMapSerial s1)(curserial \<mapsto> int (length nextDiff) - 1);
                 m2 = (if length removed > 0
                       then (\<lambda>k. if k \<noteq> curserial
                                  then map_option (\<lambda>v. v - int (length removed)) (m1 k)
                                  else m1 k)
                       else m1);
                 m3 = foldl (\<lambda>m removeSerial. m(removeSerial := None)) m2 removed
             in setSerial (s1\<lparr>sdMapSerial := m3, sdListDiff := nextDiff,
                              sdCurrent := newVrpCurrent\<rparr>) newserial)"

definition AddData :: "Server \<Rightarrow> SendableData list \<Rightarrow> Server" where
  "AddData s vrps =
     (let vrpsAsSD = map Copy vrps
      in case ComputeDiff vrpsAsSD (sdCurrent s) of
           (added, removed, unchanged) \<Rightarrow> AddSDsDiff s (added @ removed))"

definition SetBaseVersion :: "Server \<Rightarrow> uint8 \<Rightarrow> Server" where
  "SetBaseVersion s v = s\<lparr>baseVersion := v\<rparr>"

definition SetVersionEnforced :: "Server \<Rightarrow> bool \<Rightarrow> Server" where
  "SetVersionEnforced s adapt = s\<lparr>enforceVersion := adapt\<rparr>"

definition SetSessionId :: "Server \<Rightarrow> uint16 \<Rightarrow> Server" where
  "SetSessionId s sessId' = s\<lparr>sessId := sessId'\<rparr>"

subsection \<open>Sending PDUs to a client\<close>

definition Client_GetVersion :: "Client \<Rightarrow> uint8" where
  "Client_GetVersion c = version c"

definition Client_SetVersion :: "Client \<Rightarrow> uint8 \<Rightarrow> Client" where
  "Client_SetVersion c newversion = c\<lparr>versionset := True, version := newversion\<rparr>"

definition SetIntervals :: "Client \<Rightarrow> uint32 \<Rightarrow> uint32 \<Rightarrow> uint32 \<Rightarrow> Client" where
  "SetIntervals c refresh retry expire =
     c\<lparr>refreshInterval := refresh, retryInterval := retry, expireInterval := expire\<rparr>"

definition SendRawPDU :: "Client \<Rightarrow> PDU \<Rightarrow> Client" where
  "SendRawPDU c pdu = c\<lparr>transmits := transmits c @ [pdu]\<rparr>"

definition SendPDU :: "Client \<Rightarrow> PDU \<Rightarrow> Client" where
  "SendPDU c pdu = SendRawPDU c (SetVersion pdu (version c))"

text \<open>A struct literal leaves the fields it does not name at zero.\<close>

definition SendCacheReset :: "Client \<Rightarrow> Client" where
  "SendCacheReset c = SendPDU c (PDUCacheReset 0)"

definition SendInternalError :: "Client \<Rightarrow> Client" where
  "SendInternalError c =
     SendPDU c (PDUErrorReport 0 PDU_ERROR_INTERNALERR [] ''Unknown internal error'')"

definition SendNoDataError :: "Client \<Rightarrow> Client" where
  "SendNoDataError c = SendPDU c (PDUErrorReport 0 PDU_ERROR_NODATA [] ''No data available'')"

definition SendCorruptData :: "Client \<Rightarrow> Client" where
  "SendCorruptData c =
     SendPDU c (PDUErrorReport 0 PDU_ERROR_CORRUPTDATA []
                  ''Session ID mismatch: client is desynchronized'')"

definition SendWrongVersionError :: "Client \<Rightarrow> Client" where
  "SendWrongVersionError c =
     SendPDU c (PDUErrorReport 0 PDU_ERROR_BADPROTOVERSION [] ''Bad protocol version'')"

definition Notify :: "Client \<Rightarrow> uint16 \<Rightarrow> uint32 \<Rightarrow> Client" where
  "Notify c sessionId serialNumber = SendPDU c (PDUSerialNotify 0 sessionId serialNumber)"

text \<open>
  \<^verbatim>\<open>Client.SendData\<close> stores the VRP's \<^verbatim>\<open>net.IPNet\<close> in the \<^verbatim>\<open>Prefix\<close> field of the PDU, which
  \<^verbatim>\<open>structs.go\<close> declares as a \<^verbatim>\<open>netip.Prefix\<close>; the two files disagree on the type.
  \<open>Prefix_of_IPNet\<close> bridges them: the address of the IP bytes, the length of the mask.
\<close>

definition Prefix_of_IPNet :: "IPNet \<Rightarrow> Prefix" where
  "Prefix_of_IPNet n =
     PrefixFrom (case AddrFromSlice (IP n) of Some a \<Rightarrow> a | None \<Rightarrow> AddrZero)
                (simpleMaskLength (Mask n))"

definition SendData :: "Client \<Rightarrow> SendableData \<Rightarrow> Client" where
  "SendData c sd =
     (case sd of
        VRP pfx maxlen asn flags \<Rightarrow>
          if To4 (IP pfx) = None \<and> To16 (IP pfx) \<noteq> None
          then SendPDU c (PDUIPv6Prefix (Prefix_of_IPNet pfx) asn 0 maxlen flags)
          else if To4 (IP pfx) \<noteq> None
          then SendPDU c (PDUIPv4Prefix (Prefix_of_IPNet pfx) asn 0 maxlen flags)
          else c
      | BgpsecKey asn pubkey ski flags \<Rightarrow>
          if version c = 0 \<or> dontSendBGPsecKeys c then c
          else SendPDU c (PDURouterKey (version c) flags ski asn pubkey)
      | VAP flags afi customer providers \<Rightarrow>
          if version c < 2 \<or> dontSendASPA c then c
          else SendPDU c (PDUASPA (version c) flags afi (word_of_nat (length providers))
                            customer providers))"

definition SendSDs :: "Client \<Rightarrow> uint16 \<Rightarrow> uint32 \<Rightarrow> SendableData list \<Rightarrow> Client" where
  "SendSDs c sessionId serialNumber data =
     (let c1 = SendPDU c (PDUCacheResponse 0 sessionId);
          c2 = foldl (\<lambda>c' d. SendData c' (Copy d)) c1 data
      in SendPDU c2 (PDUEndOfData 0 sessionId serialNumber
                       (refreshInterval c2) (retryInterval c2) (expireInterval c2)))"

subsection \<open>Connecting and disconnecting\<close>

definition Server_ClientConnected :: "Server \<Rightarrow> Client \<Rightarrow> Server" where
  "Server_ClientConnected s c =
     (let s1 = s\<lparr>clients := clients s @ [ident c], srv_connected := srv_connected s + 1\<rparr>
      in if handler s1 then s1\<lparr>handlerCalls := handlerCalls s1 @ [CallClientConnected c]\<rparr>
         else s1)"

definition Server_ClientDisconnected :: "Server \<Rightarrow> Client \<Rightarrow> Server" where
  "Server_ClientDisconnected s c =
     (let s1 = s\<lparr>clients := filter (\<lambda>cc. cc \<noteq> ident c) (clients s),
                  srv_connected := srv_connected s - 1\<rparr>
      in if handler s1 then s1\<lparr>handlerCalls := handlerCalls s1 @ [CallClientDisconnected c]\<rparr>
         else s1)"

definition Disconnect :: "Server \<Rightarrow> Client \<Rightarrow> Server \<times> Client" where
  "Disconnect s c =
     (let c1 = c\<lparr>connected := False\<rparr>;
          s1 = (if cl_handler c1 then Server_ClientDisconnected s c1 else s)
      in (s1, c1\<lparr>quit := quit c1 @ [True]\<rparr>))"

subsection \<open>The default event handler\<close>

text \<open>
  \<^verbatim>\<open>DefaultRTREventHandler\<close> asks its \<^verbatim>\<open>sdManager\<close>, the server \<open>s\<close>. \<^verbatim>\<open>RequestNewVersion\<close> is
  \<open>None\<close> where \<^verbatim>\<open>GetSDsSerialDiff\<close> panics.
\<close>

definition DefaultRTREventHandler_RequestCache :: "Server \<Rightarrow> Client \<Rightarrow> Server \<times> Client" where
  "DefaultRTREventHandler_RequestCache s c =
     (let sessionId = GetSessionId s in
      case GetCurrentSerial s sessionId of
        (serial, valid) \<Rightarrow>
          if \<not> valid then (s, SendNoDataError c)
          else (case GetCurrentSDs s of
                  (vrps, exists) \<Rightarrow>
                    if \<not> exists then (s, SendInternalError c)
                    else (s, SendSDs c sessionId serial vrps)))"

definition DefaultRTREventHandler_RequestNewVersion ::
  "Server \<Rightarrow> Client \<Rightarrow> uint16 \<Rightarrow> uint32 \<Rightarrow> (Server \<times> Client) option" where
  "DefaultRTREventHandler_RequestNewVersion s c sessionId serialNumber =
     (let serverSessionId = GetSessionId s in
      if sessionId \<noteq> serverSessionId then Some (Disconnect s (SendCorruptData c))
      else (case GetCurrentSerial s sessionId of
              (serial, valid) \<Rightarrow>
                if \<not> valid then Some (s, SendNoDataError c)
                else (case GetSDsSerialDiff s serialNumber of
                        None \<Rightarrow> None
                      | Some (vrps, exists) \<Rightarrow>
                          if \<not> exists then Some (s, SendCacheReset c)
                          else Some (s, SendSDs c sessionId serial vrps))))"

subsection \<open>The server as the client's handler\<close>

definition Server_HandlePDU :: "Server \<Rightarrow> Client \<Rightarrow> PDU \<Rightarrow> Server \<times> Client" where
  "Server_HandlePDU s c pdu =
     (case (if enforceVersion s \<and> Client_GetVersion c \<noteq> baseVersion s
            then Disconnect s (SendWrongVersionError c) else (s, c)) of
        (s1, c1) \<Rightarrow>
          let c2 = (if Client_GetVersion c1 > baseVersion s1
                    then Client_SetVersion c1 (baseVersion s1) else c1)
          in if handler s1
             then (s1\<lparr>handlerCalls := handlerCalls s1 @ [CallHandlePDU c2 pdu]\<rparr>, c2)
             else (s1, c2))"

definition Server_RequestCache :: "Server \<Rightarrow> Client \<Rightarrow> Server \<times> Client" where
  "Server_RequestCache s c =
     (if simpleHandler s then DefaultRTREventHandler_RequestCache s c else (s, c))"

definition Server_RequestNewVersion ::
  "Server \<Rightarrow> Client \<Rightarrow> uint16 \<Rightarrow> uint32 \<Rightarrow> (Server \<times> Client) option" where
  "Server_RequestNewVersion s c sessionId serial =
     (if simpleHandler s then DefaultRTREventHandler_RequestNewVersion s c sessionId serial
      else Some (s, c))"

text \<open>
  The two process-wide flags \<^verbatim>\<open>DisableBGPSec\<close> and \<^verbatim>\<open>DisableASPA\<close> are arguments of
  \<open>acceptClientTCP\<close>, as is the pointer of the new client.
\<close>

definition ClientFromConn :: "nat \<Rightarrow> bool \<Rightarrow> bool \<Rightarrow> Client" where
  "ClientFromConn p handler' simpleHandler' =
     \<lparr> ident = p, connected = False, version = 0, versionset = False,
       cl_handler = handler', cl_simpleHandler = simpleHandler',
       curserial = 0, transmits = [], quit = [],
       cl_enforceVersion = False, disableVersionCheck = False,
       refreshInterval = 0, retryInterval = 0, expireInterval = 0,
       dontSendBGPsecKeys = False, dontSendASPA = False \<rparr>"

definition acceptClientTCP :: "Server \<Rightarrow> nat \<Rightarrow> bool \<Rightarrow> bool \<Rightarrow> Client" where
  "acceptClientTCP s p DisableBGPSec DisableASPA =
     (let client = ClientFromConn p True True;
          client1 = (if enforceVersion s then Client_SetVersion client (baseVersion s)
                     else client);
          client2 = SetIntervals client1 (pduRefreshInterval s) (pduRetryInterval s)
                      (pduExpireInterval s);
          client3 = (if DisableBGPSec then client2\<lparr>dontSendBGPsecKeys := True\<rparr> else client2)
      in if DisableASPA then client3\<lparr>dontSendASPA := True\<rparr> else client3)"

subsection \<open>The reader loop of a client\<close>

definition checkVersion :: "Server \<Rightarrow> Client \<Rightarrow> uint8 \<Rightarrow> Server \<times> Client" where
  "checkVersion s c newversion =
     (if (\<not> versionset c \<or> newversion = version c)
         \<and> (newversion = PROTOCOL_VERSION_2 \<or> newversion = PROTOCOL_VERSION_1
              \<or> newversion = PROTOCOL_VERSION_0)
      then (s, Client_SetVersion c newversion)
      else Disconnect s (SendWrongVersionError c))"

definition passSimpleHandler :: "Server \<Rightarrow> Client \<Rightarrow> PDU \<Rightarrow> (Server \<times> Client) option" where
  "passSimpleHandler s c pdu =
     (if cl_simpleHandler c
      then (case pdu of
              PDUSerialQuery _ sessionId serialNumber \<Rightarrow>
                Server_RequestNewVersion s c sessionId serialNumber
            | PDUResetQuery _ \<Rightarrow> Some (Server_RequestCache s c)
            | _ \<Rightarrow> Some (s, c))
      else Some (s, c))"

text \<open>
  \<^verbatim>\<open>Client.Start\<close> marks the client connected, tells the server, and then reads: one pass
  of its loop per chunk \<open>pkt\<close> that \<^verbatim>\<open>Read\<close> returns (the empty chunk also stands for a
  read error). The loop runs while the client is connected.
\<close>

definition Client_Start_begin :: "Server \<Rightarrow> Client \<Rightarrow> Server \<times> Client" where
  "Client_Start_begin s c =
     (let c1 = c\<lparr>connected := True\<rparr>
      in ((if cl_handler c1 then Server_ClientConnected s c1 else s), c1))"

definition Client_Start_pass :: "Server \<Rightarrow> Client \<Rightarrow> uint8 list \<Rightarrow> (Server \<times> Client) option" where
  "Client_Start_pass s c pkt =
     (if length pkt = 0 then Some (Disconnect s c)
      else (case DecodeBytes pkt of
              Inl err \<Rightarrow> Some (Disconnect s c)
            | Inr dec \<Rightarrow>
                (case (if \<not> disableVersionCheck c then checkVersion s c (GetVersion dec)
                       else (s, c)) of
                   (s1, c1) \<Rightarrow>
                     (case (if cl_enforceVersion c1 \<and> \<not> IsCorrectPDUVersion dec (version c1)
                            then Disconnect s1 (SendWrongVersionError c1) else (s1, c1)) of
                        (s2, c2) \<Rightarrow>
                          let c3 = (case dec of
                                      PDUSerialQuery _ _ serialNumber \<Rightarrow>
                                        c2\<lparr>curserial := serialNumber\<rparr>
                                    | _ \<Rightarrow> c2)
                          in (case (if cl_handler c3 then Server_HandlePDU s2 c3 dec
                                    else (s2, c3)) of
                                (s4, c4) \<Rightarrow> passSimpleHandler s4 c4 dec)))))"

fun Client_Start_loop :: "Server \<Rightarrow> Client \<Rightarrow> uint8 list list \<Rightarrow> (Server \<times> Client) option" where
  "Client_Start_loop s c [] = Some (s, c)"
| "Client_Start_loop s c (pkt # pkts) =
     (if connected c
      then (case Client_Start_pass s c pkt of
              None \<Rightarrow> None
            | Some (s', c') \<Rightarrow> Client_Start_loop s' c' pkts)
      else Some (s, c))"


subsection \<open>A client's session as a sequence of events\<close>

text \<open>
  \<^verbatim>\<open>Server.NotifyClients\<close> calls \<^verbatim>\<open>Notify\<close> on every registered client; \<open>NotifyClients s c n\<close> is
  what it does to the client \<open>c\<close>.
\<close>

definition NotifyClients :: "Server \<Rightarrow> Client \<Rightarrow> uint32 \<Rightarrow> Client" where
  "NotifyClients s c serialNumber =
     (if ident c \<in> set (clients s) then Notify c (sessId s) serialNumber else c)"

text \<open>
  What happens to a started client and its server, in the order it happens: the reader
  loop makes a pass over a chunk it has read (while the client is connected), the server
  installs a new set of objects, the server notifies its clients of a serial. A panic
  ends the run with \<open>None\<close>.
\<close>

datatype Event =
    Received "uint8 list"
  | Installed "SendableData list"
  | Notified uint32

fun session_run :: "Server \<Rightarrow> Client \<Rightarrow> Event list \<Rightarrow> (Server \<times> Client) option" where
  "session_run s c [] = Some (s, c)"
| "session_run s c (Received pkt # evs) =
     (if connected c
      then (case Client_Start_pass s c pkt of
              None \<Rightarrow> None
            | Some (s', c') \<Rightarrow> session_run s' c' evs)
      else session_run s c evs)"
| "session_run s c (Installed vrps # evs) = session_run (AddData s vrps) c evs"
| "session_run s c (Notified serialNumber # evs) =
     session_run s (NotifyClients s c serialNumber) evs"

section \<open>Auxiliary predicates\<close>

text \<open>
  \<open>settled_at v c\<close>: the client's version has been set, it is \<open>v\<close>, and every PDU put on
  the client's channel so far carries \<open>v\<close>.
\<close>

definition settled_at :: "uint8 \<Rightarrow> Client \<Rightarrow> bool" where
  "settled_at v c \<longleftrightarrow>
     versionset c \<and> version c = v \<and> (\<forall>pdu \<in> set (transmits c). GetVersion pdu = v)"

text \<open>
  \<open>evicted s\<close>: how many of the oldest serials \<^verbatim>\<open>addSerial\<close> drops from the history of \<open>s\<close>.
  \<open>store_inv s\<close>: what holds of a store that was filled by \<^verbatim>\<open>AddData\<close> alone, with
  automatic serials: the two histories have the same length, the current serial is the
  last one of the history, the serials of the history follow each other, the history
  holds at most \<^verbatim>\<open>keepDiff\<close> + 1 entries when \<^verbatim>\<open>keepDiff\<close> is positive, and every object of
  the current set is flagged as added.
\<close>

definition evicted :: "Server \<Rightarrow> nat" where
  "evicted s =
     (if int (length (sdListSerial s)) \<ge> keepDiff s \<and> keepDiff s > 0
      then nat (int (length (sdListSerial s)) - keepDiff s) else 0)"

definition store_inv :: "Server \<Rightarrow> bool" where
  "store_inv s \<longleftrightarrow>
     \<not> manualserial s
     \<and> length (sdListDiff s) = length (sdListSerial s)
     \<and> (sdListSerial s \<noteq> [] \<longrightarrow> last (sdListSerial s) = sdCurrentSerial s)
     \<and> (\<forall>j < length (sdListSerial s). sdListSerial s ! j = sdListSerial s ! 0 + word_of_nat j)
     \<and> (keepDiff s > 0 \<longrightarrow> int (length (sdListSerial s)) \<le> keepDiff s + 1)
     \<and> (\<forall>x \<in> set (sdCurrent s). GetFlag x = FLAG_ADDED)"

section \<open>Concrete inputs\<close>

text \<open>
  The states and objects at which the theorems below are instantiated: a server at
  protocol version 1 that keeps three differences, its session id \<open>0x1234\<close>; three VRPs,
  each with its flag as argument; a client accepted and started by that server; and a
  store that was given the serial 20 and then two sets of objects.
\<close>

definition example_configuration :: ServerConfiguration where
  "example_configuration =
     \<lparr> MaxConn = 0, ProtocolVersion = 1, EnforceVersion = False, KeepDifference = 3,
       SessId = 0, RefreshInterval = 0, RetryInterval = 0, ExpireInterval = 0 \<rparr>"

definition example_server :: Server where
  "example_server = NewServer example_configuration 0x1234 True True"

definition example_client :: Client where
  "example_client =
     snd (Client_Start_begin example_server (acceptClientTCP example_server 7 False False))"

definition vrp_a :: "uint8 \<Rightarrow> SendableData" where
  "vrp_a f = VRP \<lparr> IP = [192, 0, 2, 0], Mask = [255, 255, 255, 0] \<rparr> 24 64496 f"

definition vrp_b :: "uint8 \<Rightarrow> SendableData" where
  "vrp_b f = VRP \<lparr> IP = [198, 51, 100, 0], Mask = [255, 255, 255, 0] \<rparr> 24 64497 f"

definition vrp_c :: "uint8 \<Rightarrow> SendableData" where
  "vrp_c f = VRP \<lparr> IP = [203, 0, 113, 0], Mask = [255, 255, 255, 0] \<rparr> 24 64498 f"

definition example_store :: Server where
  "example_store =
     AddData (AddData (SetSerial example_server 20) [vrp_a 0]) [vrp_a 0, vrp_b 0]"

section \<open>Big-endian bytes\<close>

lemma length_be_bytes [simp]: "length (be_bytes n w) = n"
  by (simp add: be_bytes_def)

lemma be_word_snoc: "be_word (bs @ [b]) = push_bit 8 (be_word bs) OR ucast b"
  by (simp add: be_word_def)

lemma bit_be_word:
  "bit (be_word bs :: 'a::len word) k \<longleftrightarrow>
     k < LENGTH('a) \<and> k div 8 < length bs \<and> bit (rev bs ! (k div 8)) (k mod 8)"
proof (induction bs arbitrary: k rule: rev_induct)
  case Nil
  then show ?case by (simp add: be_word_def)
next
  case (snoc b bs)
  show ?case
  proof (cases "k < 8")
    case True
    then show ?thesis
      by (auto simp add: be_word_snoc bit_simps snoc.IH dest: bit_imp_le_length)
  next
    case False
    then have k: "8 \<le> k" by simp
    then have d: "(k - 8) div 8 = k div 8 - 1" "(k - 8) mod 8 = k mod 8" "0 < k div 8"
      by (simp_all add: le_div_geq le_mod_geq)
    have nb: "\<not> bit b k" using k by (auto dest: bit_imp_le_length)
    have f: "k div 8 - Suc 0 < length bs \<longleftrightarrow> k div 8 < Suc (length bs)"
      using d(3) by linarith
    show ?thesis using k d nb
      by (auto simp add: be_word_snoc bit_simps snoc.IH nth_Cons' f less_imp_diff_less)
  qed
qed

lemma nth_be_bytes: "i < n \<Longrightarrow> be_bytes n w ! i = ucast (drop_bit (8 * (n - 1 - i)) w)"
  by (simp add: be_bytes_def rev_nth)

lemma be_word_be_bytes:
  "LENGTH('a) \<le> 8 * n \<Longrightarrow> be_word (be_bytes n w) = (w :: 'a::len word)"
proof (rule bit_word_eqI)
  fix k assume len: "LENGTH('a) \<le> 8 * n" and k: "k < LENGTH('a)"
  then have kn: "k div 8 < n" by (simp add: less_mult_imp_div_less mult.commute)
  have "k mod 8 < 8" by simp
  moreover have "8 * (k div 8) + k mod 8 = k" by simp
  ultimately show "bit (be_word (be_bytes n w) :: 'a word) k = bit w k"
    using k kn by (simp add: bit_be_word be_bytes_def rev_map rev_nth bit_simps)
qed

lemma be_word_be_bytes_2 [simp]: "be_word (be_bytes 2 w) = (w :: uint16)"
  by (rule be_word_be_bytes) simp

lemma be_word_be_bytes_4 [simp]: "be_word (be_bytes 4 w) = (w :: uint32)"
  by (rule be_word_be_bytes) simp

lemma be_word_be_bytes_16 [simp]: "be_word (be_bytes 16 w) = (w :: 128 word)"
  by (rule be_word_be_bytes) simp

lemma be_bytes_2: "be_bytes 2 w = [ucast (drop_bit 8 w), ucast w]"
  by (simp add: be_bytes_def numeral_2_eq_2)

lemma be_bytes_4:
  "be_bytes 4 w = [ucast (drop_bit 24 w), ucast (drop_bit 16 w), ucast (drop_bit 8 w), ucast w]"
  by (simp add: be_bytes_def upt_rec)

section \<open>Strings\<close>

lemma char_of_unat_of_char: "char_of (unat (of_char c :: uint8)) = c"
proof -
  have "(of_char c :: uint8) = of_nat (of_char c)" by (simp add: of_nat_of_char)
  moreover have "(of_char c :: nat) < 256" by simp
  ultimately have "unat (of_char c :: uint8) = of_char c"
    by (simp add: unat_of_nat)
  then show ?thesis by simp
qed

lemma string_of_bytes_of_string [simp]: "string_of_bytes (bytes_of_string s) = s"
  by (simp add: string_of_bytes_def bytes_of_string_def comp_def char_of_unat_of_char)

lemma string_of_bytes_append [simp]:
  "string_of_bytes (xs @ ys) = string_of_bytes xs @ string_of_bytes ys"
  by (simp add: string_of_bytes_def)

lemma string_of_bytes_zero [simp]: "string_of_bytes [0] = [CHR 0x00]"
  by code_simp

lemma length_bytes_of_string [simp]: "length (bytes_of_string s) = length s"
  by (simp add: bytes_of_string_def)

section \<open>The frame of a PDU\<close>

lemma slice_0 [simp]: "slice xs 0 n = take n xs"
  by (simp add: slice_def)

lemma Decode_frame:
  fixes l :: uint32 and sess :: uint16
  assumes l: "unat l = 8 + length body" and m: "8 + length body \<le> messageMaxSize"
  shows "Decode ([v, t] @ be_bytes 2 sess @ be_bytes 4 l @ body @ rest)
           = decode_body v t sess body"
proof -
  have a: "be_word [ucast (drop_bit 8 sess), ucast sess] = sess"
    using be_word_be_bytes_2 [of sess] by (simp add: be_bytes_2)
  have b: "be_word [ucast (drop_bit 24 l), ucast (drop_bit 16 l), ucast (drop_bit 8 l), ucast l] = l"
    using be_word_be_bytes_4 [of l] by (simp add: be_bytes_4)
  have c: "\<not> l < 8" using l by (simp add: word_less_nat_alt)
  show ?thesis
    using l m c by (simp add: Decode_def be_bytes_2 be_bytes_4 a b Let_def)
qed


lemmas PDU_ID_defs = PDU_ID_SERIAL_NOTIFY_def PDU_ID_SERIAL_QUERY_def PDU_ID_RESET_QUERY_def
  PDU_ID_CACHE_RESPONSE_def PDU_ID_IPV4_PREFIX_def PDU_ID_IPV6_PREFIX_def
  PDU_ID_END_OF_DATA_def PDU_ID_CACHE_RESET_def PDU_ID_ROUTER_KEY_def
  PDU_ID_ERROR_REPORT_def PDU_ID_ASPA_def

lemma Decode_frame_nil:
  fixes l :: uint32 and sess :: uint16
  assumes "unat l = 8 + length body" and "8 + length body \<le> messageMaxSize"
  shows "Decode ([v, t] @ be_bytes 2 sess @ be_bytes 4 l @ body) = decode_body v t sess body"
  using Decode_frame [OF assms, of v t sess "[]"] by simp

section \<open>Decoding what was encoded, one PDU type at a time\<close>

lemma Decode_SerialNotify:
  "Decode (PDUSerialNotify_Bytes v sess serial) = Inr (PDUSerialNotify v sess serial)"
proof -
  have "Decode (PDUSerialNotify_Bytes v sess serial)
          = decode_body v PDU_ID_SERIAL_NOTIFY sess (be_bytes 4 serial)"
    unfolding PDUSerialNotify_Bytes_def
    by (rule Decode_frame_nil) (simp_all add: messageMaxSize_def)
  then show ?thesis by (simp add: decode_body_def PDU_ID_defs)
qed

lemma Decode_SerialQuery:
  "Decode (PDUSerialQuery_Bytes v sess serial) = Inr (PDUSerialQuery v sess serial)"
proof -
  have "Decode (PDUSerialQuery_Bytes v sess serial)
          = decode_body v PDU_ID_SERIAL_QUERY sess (be_bytes 4 serial)"
    unfolding PDUSerialQuery_Bytes_def
    by (rule Decode_frame_nil) (simp_all add: messageMaxSize_def)
  then show ?thesis by (simp add: decode_body_def PDU_ID_defs)
qed

lemma Decode_ResetQuery: "Decode (PDUResetQuery_Bytes v) = Inr (PDUResetQuery v)"
proof -
  have "Decode (PDUResetQuery_Bytes v) = decode_body v PDU_ID_RESET_QUERY 0 []"
    unfolding PDUResetQuery_Bytes_def
    using Decode_frame_nil [of 8 "[]" v PDU_ID_RESET_QUERY 0]
    by (simp add: messageMaxSize_def)
  then show ?thesis by (simp add: decode_body_def PDU_ID_defs)
qed

lemma Decode_CacheResponse:
  "Decode (PDUCacheResponse_Bytes v sess) = Inr (PDUCacheResponse v sess)"
proof -
  have "Decode (PDUCacheResponse_Bytes v sess) = decode_body v PDU_ID_CACHE_RESPONSE sess []"
    unfolding PDUCacheResponse_Bytes_def
    using Decode_frame_nil [of 8 "[]" v PDU_ID_CACHE_RESPONSE sess]
    by (simp add: messageMaxSize_def)
  then show ?thesis by (simp add: decode_body_def PDU_ID_defs)
qed

lemma Decode_CacheReset: "Decode (PDUCacheReset_Bytes v) = Inr (PDUCacheReset v)"
proof -
  have "Decode (PDUCacheReset_Bytes v) = decode_body v PDU_ID_CACHE_RESET 0 []"
    unfolding PDUCacheReset_Bytes_def
    using Decode_frame_nil [of 8 "[]" v PDU_ID_CACHE_RESET 0]
    by (simp add: messageMaxSize_def)
  then show ?thesis by (simp add: decode_body_def PDU_ID_defs)
qed

lemma Decode_EndOfData_v0:
  "Decode (PDUEndOfData_Bytes 0 sess serial refresh retry expire)
     = Inr (PDUEndOfData 0 sess serial 0 0 0)"
proof -
  have "Decode (PDUEndOfData_Bytes 0 sess serial refresh retry expire)
          = decode_body 0 PDU_ID_END_OF_DATA sess (be_bytes 4 serial)"
    unfolding PDUEndOfData_Bytes_def PROTOCOL_VERSION_0_def
    using Decode_frame_nil [of 12 "be_bytes 4 serial" 0 PDU_ID_END_OF_DATA sess]
    by (simp add: messageMaxSize_def)
  then show ?thesis by (simp add: decode_body_def PDU_ID_defs)
qed

lemma Decode_EndOfData:
  assumes "v \<noteq> 0"
  shows "Decode (PDUEndOfData_Bytes v sess serial refresh retry expire)
           = Inr (PDUEndOfData v sess serial refresh retry expire)"
proof -
  let ?body = "be_bytes 4 serial @ be_bytes 4 refresh @ be_bytes 4 retry @ be_bytes 4 expire"
  have "Decode (PDUEndOfData_Bytes v sess serial refresh retry expire)
          = decode_body v PDU_ID_END_OF_DATA sess ?body"
    unfolding PDUEndOfData_Bytes_def PROTOCOL_VERSION_0_def
    using assms Decode_frame_nil [of 24 ?body v PDU_ID_END_OF_DATA sess]
    by (simp add: messageMaxSize_def)
  then show ?thesis by (simp add: decode_body_def PDU_ID_defs slice_def)
qed


lemma uint_minus_one_byte:
  fixes b :: uint8
  shows "uint (b - 1) = (if b = 0 then 255 else uint b - 1)"
proof (cases "b = 0")
  case True
  have "uint (- 1 :: uint8) = 255" by (simp add: uint_word_ariths)
  with True show ?thesis by simp
next
  case False
  then have "unat (b - 1) = unat b - 1" by (rule unat_minus_one)
  moreover have "unat b \<noteq> 0" using False by (simp add: unat_eq_0)
  ultimately have "int (unat (b - 1)) = int (unat b) - 1" by simp
  with False show ?thesis by simp
qed

lemma PrefixFrom_Bits:
  fixes pfx :: Prefix
  assumes "ip pfx \<noteq> AddrZero" and "uint (bitsPlusOne pfx) \<le> BitLen (ip pfx) + 1"
    and "BitLen (ip pfx) \<le> 128"
  shows "PrefixFrom (ip pfx) (uint (word_of_int (Bits pfx) :: uint8)) = pfx"
proof -
  have w: "(word_of_int (Bits pfx) :: uint8) = bitsPlusOne pfx - 1"
    by (simp add: Bits_def)
  have p: "0 < uint (bitsPlusOne pfx)" if "bitsPlusOne pfx \<noteq> 0"
    using that uint_0_iff [of "bitsPlusOne pfx"] by (simp add: order_less_le)
  show ?thesis
    using assms p by (simp add: PrefixFrom_def w uint_minus_one_byte)
qed


lemma Decode_IPv4Prefix:
  fixes pfx :: Prefix
  assumes a: "ip pfx = Addr4 w" and b: "uint (bitsPlusOne pfx) \<le> 33"
  shows "\<exists>bs. PDUIPv4Prefix_Bytes pfx asn v maxlen flags = Some bs
           \<and> Decode bs = Inr (PDUIPv4Prefix pfx asn v maxlen flags)"
proof -
  let ?body = "[flags, word_of_int (Bits pfx), maxlen, 0] @ be_bytes 4 w @ be_bytes 4 asn"
  let ?bs = "[v, PDU_ID_IPV4_PREFIX] @ be_bytes 2 (0 :: uint16) @ be_bytes 4 (20 :: uint32) @ ?body"
  have e: "PDUIPv4Prefix_Bytes pfx asn v maxlen flags = Some ?bs"
    using a by (simp add: PDUIPv4Prefix_Bytes_def As4_def)
  have p: "PrefixFrom (Addr4 w) (uint (word_of_int (Bits pfx) :: uint8)) = pfx"
    using PrefixFrom_Bits [of pfx] a b by (simp add: BitLen_def)
  have "Decode ?bs = decode_body v PDU_ID_IPV4_PREFIX 0 ?body"
    by (rule Decode_frame_nil) (simp_all add: messageMaxSize_def)
  also have "\<dots> = Inr (PDUIPv4Prefix pfx asn v maxlen flags)"
    by (simp add: decode_body_def PDU_ID_defs slice_def AddrFromSlice_def p)
  finally show ?thesis using e by simp
qed

lemma Decode_IPv6Prefix:
  fixes pfx :: Prefix
  assumes a: "ip pfx = Addr6 w" and b: "uint (bitsPlusOne pfx) \<le> 129"
  shows "Decode (PDUIPv6Prefix_Bytes pfx asn v maxlen flags)
           = Inr (PDUIPv6Prefix pfx asn v maxlen flags)"
proof -
  let ?body = "[flags, word_of_int (Bits pfx), maxlen, 0] @ be_bytes 16 w @ be_bytes 4 asn"
  let ?bs = "[v, PDU_ID_IPV6_PREFIX] @ be_bytes 2 (0 :: uint16) @ be_bytes 4 (32 :: uint32) @ ?body"
  have e: "PDUIPv6Prefix_Bytes pfx asn v maxlen flags = ?bs"
    using a by (simp add: PDUIPv6Prefix_Bytes_def As16_def)
  have p: "PrefixFrom (Addr6 w) (uint (word_of_int (Bits pfx) :: uint8)) = pfx"
    using PrefixFrom_Bits [of pfx] a b by (simp add: BitLen_def)
  have "Decode ?bs = decode_body v PDU_ID_IPV6_PREFIX 0 ?body"
    by (rule Decode_frame_nil) (simp_all add: messageMaxSize_def)
  also have "\<dots> = Inr (PDUIPv6Prefix pfx asn v maxlen flags)"
    by (simp add: decode_body_def PDU_ID_defs slice_def AddrFromSlice_def p)
  finally show ?thesis using e by simp
qed

lemma unat_word_of_nat_uint32: "n < 2 ^ 32 \<Longrightarrow> unat (word_of_nat n :: uint32) = n"
  by (simp add: unat_of_nat)

lemma flags_in_session_slot:
  fixes flags :: uint8
  shows "ucast (drop_bit 8 (push_bit 8 (ucast flags :: uint16))) = flags"
    and "(ucast (push_bit 8 (ucast flags :: uint16)) :: uint8) = 0"
  by (rule bit_word_eqI; auto simp add: bit_simps dest: bit_imp_le_length)+

lemma Decode_RouterKey:
  assumes a: "length ski = 20" and b: "4 \<le> length spki" and c: "length spki \<le> 262136"
  shows "Decode (PDURouterKey_Bytes v flags ski asn spki) = Inr (PDURouterKey v flags ski asn spki)"
proof -
  let ?body = "ski @ be_bytes 4 asn @ spki"
  let ?l = "word_of_nat (32 + length spki) :: uint32"
  let ?sess = "push_bit 8 (ucast flags) :: uint16"
  have s: "be_bytes 2 ?sess = [flags, 0]"
    by (simp add: be_bytes_2 flags_in_session_slot)
  have e: "PDURouterKey_Bytes v flags ski asn spki
             = [v, PDU_ID_ROUTER_KEY] @ be_bytes 2 ?sess @ be_bytes 4 ?l @ ?body"
    using a by (simp add: PDURouterKey_Bytes_def s)
  have l0: "unat ?l = 32 + length spki"
    using c by (intro unat_word_of_nat_uint32) simp
  have "8 + length ?body = 32 + length spki"
    using a by simp
  with l0 have l: "unat ?l = 8 + length ?body"
    by (simp only:)
  have f: "ucast (drop_bit 8 ?sess) = flags"
    by (rule flags_in_session_slot)
  have "Decode ([v, PDU_ID_ROUTER_KEY] @ be_bytes 2 ?sess @ be_bytes 4 ?l @ ?body)
          = decode_body v PDU_ID_ROUTER_KEY ?sess ?body"
    using l a c by (intro Decode_frame_nil) (simp_all add: messageMaxSize_def)
  also have "\<dots> = Inr (PDURouterKey v flags ski asn spki)"
    using a b by (simp add: decode_body_def PDU_ID_defs slice_def f)
  finally show ?thesis using e by simp
qed


lemma unat_add_small:
  fixes x y :: uint32
  assumes "unat x + unat y < 2 ^ 32"
  shows "unat (x + y) = unat x + unat y"
  using assms by (simp add: unat_word_ariths)

lemma decode_body_ErrorReport:
  assumes sz: "length cp + length msgb \<le> 262152"
  shows "decode_body v PDU_ID_ERROR_REPORT code
           (be_bytes 4 (word_of_nat (length cp) :: uint32) @ cp
            @ be_bytes 4 (word_of_nat (length msgb) :: uint32) @ msgb)
         = Inr (PDUErrorReport v code cp (string_of_bytes msgb))"
proof -
  define lp :: uint32 where "lp = word_of_nat (length cp)"
  define le :: uint32 where "le = word_of_nat (length msgb)"
  have ulp: "unat lp = length cp"
    unfolding lp_def using sz by (intro unat_word_of_nat_uint32) simp
  have ule: "unat le = length msgb"
    unfolding le_def using sz by (intro unat_word_of_nat_uint32) simp
  have u4: "unat (lp + 4) = length cp + 4"
    using unat_add_small [of lp 4] ulp sz by simp
  have u8: "unat (lp + 8) = length cp + 8"
    using unat_add_small [of lp 8] ulp sz by simp
  have u8e: "unat (lp + 8 + le) = length cp + 8 + length msgb"
    using unat_add_small [of "lp + 8" le] u8 ule sz by simp
  have i: "uint lp = int (length cp)" "uint le = int (length msgb)"
    using ulp ule by (simp_all add: uint_nat)
  let ?toread = "be_bytes 4 lp @ cp @ be_bytes 4 le @ msgb"
  have t1: "take 4 ?toread = be_bytes 4 lp" by simp
  have t2: "slice ?toread 4 (length cp + 4) = cp" by (simp add: slice_def)
  have t3: "slice ?toread (length cp + 4) (length cp + 8) = be_bytes 4 le"
    by (simp add: slice_def)
  have t4: "slice ?toread (length cp + 8) (length cp + 8 + length msgb) = msgb"
    by (simp add: slice_def)
  have "decode_body v PDU_ID_ERROR_REPORT code ?toread
          = Inr (PDUErrorReport v code cp (string_of_bytes msgb))"
    unfolding decode_body_def
    by (simp add: PDU_ID_defs Let_def t1 t2 t3 t4 u4 u8 u8e i del: append_assoc)
  then show ?thesis by (simp add: lp_def le_def)
qed


lemma Decode_ErrorReport:
  assumes sz: "length cp + length msg + (if msg = [] then 0 else 1) \<le> 262152"
  shows "Decode (PDUErrorReport_Bytes v code cp msg)
           = Inr (PDUErrorReport v code cp (if msg = [] then [] else msg @ [CHR 0x00]))"
proof -
  define msgb where "msgb = (if msg \<noteq> [] then bytes_of_string msg @ [0] else [])"
  have lm: "length msgb = length msg + (if msg \<noteq> [] then 1 else 0)"
    by (simp add: msgb_def)
  let ?body = "be_bytes 4 (word_of_nat (length cp) :: uint32) @ cp
               @ be_bytes 4 (word_of_nat (length msgb) :: uint32) @ msgb"
  let ?l = "word_of_nat (16 + length cp + length msgb) :: uint32"
  have e: "PDUErrorReport_Bytes v code cp msg
             = [v, PDU_ID_ERROR_REPORT] @ be_bytes 2 code @ be_bytes 4 ?l @ ?body"
    by (simp add: PDUErrorReport_Bytes_def Let_def msgb_def add.commute)
  have l0: "unat ?l = 16 + length cp + length msgb"
    using sz lm by (intro unat_word_of_nat_uint32) (simp split: if_splits)
  have "8 + length ?body = 16 + length cp + length msgb" by simp
  with l0 have l: "unat ?l = 8 + length ?body" by (simp only:)
  have m: "8 + length ?body \<le> messageMaxSize"
    using sz lm by (simp add: messageMaxSize_def split: if_splits)
  have "Decode ([v, PDU_ID_ERROR_REPORT] @ be_bytes 2 code @ be_bytes 4 ?l @ ?body)
          = decode_body v PDU_ID_ERROR_REPORT code ?body"
    using l m by (rule Decode_frame_nil)
  also have "\<dots> = Inr (PDUErrorReport v code cp (string_of_bytes msgb))"
    using sz lm by (intro decode_body_ErrorReport) (simp split: if_splits)
  also have "string_of_bytes msgb = (if msg = [] then [] else msg @ [CHR 0x00])"
    by (simp add: msgb_def string_of_bytes_def[of "[]"])
  finally show ?thesis using e by simp
qed

section \<open>Encoding and decoding\<close>

text \<open>
  C1, as the claim states it, fails for the two PDUs it names. The encoder ends a
  non-empty error message with a NUL byte and counts it in the length; the decoder keeps
  the byte, so the message comes back one character longer. An End of Data PDU encoded
  at version 0 carries no intervals, and the decoder returns them as zero.
\<close>

theorem decode_encode_counterexample:
  "Bytes (SetVersion (PDUErrorReport 0 2 [] ''No data available'') 1)
     = Some (PDUErrorReport_Bytes 1 2 [] ''No data available'')
   \<and> Decode (PDUErrorReport_Bytes 1 2 [] ''No data available'')
       = Inr (PDUErrorReport 1 2 [] (''No data available'' @ [CHR 0x00]))
   \<and> Decode (PDUErrorReport_Bytes 1 2 [] ''No data available'')
       \<noteq> Inr (SetVersion (PDUErrorReport 0 2 [] ''No data available'') 1)
   \<and> Bytes (SetVersion (PDUEndOfData 1 0x1234 42 3600 600 7200) 0)
       = Some (PDUEndOfData_Bytes 0 0x1234 42 3600 600 7200)
   \<and> Decode (PDUEndOfData_Bytes 0 0x1234 42 3600 600 7200)
       = Inr (PDUEndOfData 0 0x1234 42 0 0 0)
   \<and> Decode (PDUEndOfData_Bytes 0 0x1234 42 3600 600 7200)
       \<noteq> Inr (SetVersion (PDUEndOfData 1 0x1234 42 3600 600 7200) 0)"
  by (simp add: Decode_ErrorReport Decode_EndOfData_v0)

text \<open>
  C1, amended. For every version \<open>v\<close>, encoding a PDU with that version and decoding the
  bytes gives the PDU back, with the version \<open>v\<close>, for: Serial Notify, Serial Query,
  Reset Query, Cache Response and Cache Reset; an IPv4 (IPv6) Prefix whose address is
  an IPv4 (IPv6) address and whose prefix length is one that \<^verbatim>\<open>netip\<close> can hold; an End of
  Data at a version other than 0, or with all three intervals zero; a Router Key with
  an SKI of 20 bytes and a public key of 4 to 262136 bytes; an Error Report with an
  empty message and at most 262152 bytes of PDU copy. An Error Report with a non-empty
  message that fits the maximal PDU size decodes to the same report with a NUL
  character appended to the message, and an End of Data encoded at version 0 decodes
  with the three intervals zero.
\<close>

theorem decode_encode:
  "((case p of
       PDUIPv4Prefix pfx _ _ _ _ \<Rightarrow>
         (case ip pfx of Addr4 _ \<Rightarrow> bitsPlusOne pfx \<le> 33 | _ \<Rightarrow> False)
     | PDUIPv6Prefix pfx _ _ _ _ \<Rightarrow>
         (case ip pfx of Addr6 _ \<Rightarrow> bitsPlusOne pfx \<le> 129 | _ \<Rightarrow> False)
     | PDUEndOfData _ _ _ refresh retry expire \<Rightarrow>
         v \<noteq> 0 \<or> (refresh = 0 \<and> retry = 0 \<and> expire = 0)
     | PDURouterKey _ _ ski _ spki \<Rightarrow>
         length ski = 20 \<and> 4 \<le> length spki \<and> length spki \<le> 262136
     | PDUErrorReport _ _ cp msg \<Rightarrow> msg = [] \<and> length cp \<le> 262152
     | PDUASPA _ _ _ _ _ _ \<Rightarrow> False
     | _ \<Rightarrow> True)
    \<longrightarrow> (\<exists>bs. Bytes (SetVersion p v) = Some bs \<and> Decode bs = Inr (SetVersion p v)))
   \<and> (msg \<noteq> [] \<and> length cp + length msg \<le> 262151
        \<longrightarrow> (\<exists>bs. Bytes (SetVersion (PDUErrorReport v0 code cp msg) v) = Some bs
                  \<and> Decode bs = Inr (PDUErrorReport v code cp (msg @ [CHR 0x00]))))
   \<and> (\<exists>bs. Bytes (SetVersion (PDUEndOfData v0 sess serial refresh retry expire) 0) = Some bs
          \<and> Decode bs = Inr (PDUEndOfData 0 sess serial 0 0 0))"
proof (intro conjI impI)
  assume ok: "case p of
       PDUIPv4Prefix pfx _ _ _ _ \<Rightarrow>
         (case ip pfx of Addr4 _ \<Rightarrow> bitsPlusOne pfx \<le> 33 | _ \<Rightarrow> False)
     | PDUIPv6Prefix pfx _ _ _ _ \<Rightarrow>
         (case ip pfx of Addr6 _ \<Rightarrow> bitsPlusOne pfx \<le> 129 | _ \<Rightarrow> False)
     | PDUEndOfData _ _ _ refresh retry expire \<Rightarrow>
         v \<noteq> 0 \<or> (refresh = 0 \<and> retry = 0 \<and> expire = 0)
     | PDURouterKey _ _ ski _ spki \<Rightarrow>
         length ski = 20 \<and> 4 \<le> length spki \<and> length spki \<le> 262136
     | PDUErrorReport _ _ cp msg \<Rightarrow> msg = [] \<and> length cp \<le> 262152
     | PDUASPA _ _ _ _ _ _ \<Rightarrow> False
     | _ \<Rightarrow> True"
  show "\<exists>bs. Bytes (SetVersion p v) = Some bs \<and> Decode bs = Inr (SetVersion p v)"
  proof (cases p)
    case (PDUIPv4Prefix pfx asn v' maxlen flags)
    with ok obtain w where "ip pfx = Addr4 w" and "bitsPlusOne pfx \<le> 33"
      by (auto split: Addr.splits)
    then have "ip pfx = Addr4 w" and "uint (bitsPlusOne pfx) \<le> 33"
      by (simp_all add: word_le_def)
    from Decode_IPv4Prefix [OF this] PDUIPv4Prefix show ?thesis by simp
  next
    case (PDUIPv6Prefix pfx asn v' maxlen flags)
    with ok obtain w where "ip pfx = Addr6 w" and "bitsPlusOne pfx \<le> 129"
      by (auto split: Addr.splits)
    then have "ip pfx = Addr6 w" and "uint (bitsPlusOne pfx) \<le> 129"
      by (simp_all add: word_le_def)
    from Decode_IPv6Prefix [OF this] PDUIPv6Prefix show ?thesis by simp
  next
    case (PDUEndOfData v' s n r t e)
    with ok show ?thesis
      by (cases "v = 0") (auto simp add: Decode_EndOfData Decode_EndOfData_v0)
  next
    case (PDURouterKey v' f ski a spki)
    with ok show ?thesis by (simp add: Decode_RouterKey)
  next
    case (PDUErrorReport v' c cp' msg')
    with ok show ?thesis by (simp add: Decode_ErrorReport)
  qed (use ok in \<open>simp_all add: Decode_SerialNotify Decode_SerialQuery Decode_ResetQuery
        Decode_CacheResponse Decode_CacheReset\<close>)
next
  assume "msg \<noteq> [] \<and> length cp + length msg \<le> 262151"
  then show "\<exists>bs. Bytes (SetVersion (PDUErrorReport v0 code cp msg) v) = Some bs
                  \<and> Decode bs = Inr (PDUErrorReport v code cp (msg @ [CHR 0x00]))"
    by (simp add: Decode_ErrorReport)
next
  show "\<exists>bs. Bytes (SetVersion (PDUEndOfData v0 sess serial refresh retry expire) 0) = Some bs
          \<and> Decode bs = Inr (PDUEndOfData 0 sess serial 0 0 0)"
    by (simp add: Decode_EndOfData_v0)
qed

theorem decode_encode_witness:
  "(\<exists>bs. Bytes (SetVersion (PDUSerialQuery 0 0x1234 42) 2) = Some bs
        \<and> Decode bs = Inr (PDUSerialQuery 2 0x1234 42))
   \<and> (\<exists>bs. Bytes (SetVersion
                (PDUIPv4Prefix \<lparr> ip = Addr4 0xC0000200, bitsPlusOne = 25 \<rparr> 64496 0 24 1) 1)
              = Some bs
        \<and> Decode bs
            = Inr (PDUIPv4Prefix \<lparr> ip = Addr4 0xC0000200, bitsPlusOne = 25 \<rparr> 64496 1 24 1))
   \<and> (\<exists>bs. Bytes (SetVersion (PDUEndOfData 0 0x1234 42 3600 600 7200) 1) = Some bs
        \<and> Decode bs = Inr (PDUEndOfData 1 0x1234 42 3600 600 7200))
   \<and> (\<exists>bs. Bytes (SetVersion (PDUErrorReport 0 2 [] ''No data available'') 1) = Some bs
        \<and> Decode bs = Inr (PDUErrorReport 1 2 [] (''No data available'' @ [CHR 0x00])))"
  using decode_encode [where p = "PDUSerialQuery 0 0x1234 42" and v = 2
                          and msg = "''No data available''" and cp = "[]" and v0 = 0
                          and code = 2]
        decode_encode [where p = "PDUIPv4Prefix \<lparr> ip = Addr4 0xC0000200, bitsPlusOne = 25 \<rparr>
                                    64496 0 24 1" and v = 1]
        decode_encode [where p = "PDUEndOfData 0 0x1234 42 3600 600 7200" and v = 1
                          and msg = "''No data available''" and cp = "[]" and v0 = 0
                          and code = 2]
  by simp

section \<open>Facts about the concrete inputs\<close>

lemma HashKey_vrp_a [simp]: "HashKey (vrp_a f) = ''192.0.2.0/24-24-64496''"
  by (simp add: vrp_a_def IPNet_String_def networkNumberAndMask_def To4_def IP_String_def
      uitoa.simps)

lemma HashKey_vrp_b [simp]: "HashKey (vrp_b f) = ''198.51.100.0/24-24-64497''"
  by (simp add: vrp_b_def IPNet_String_def networkNumberAndMask_def To4_def IP_String_def
      uitoa.simps)

lemma HashKey_vrp_c [simp]: "HashKey (vrp_c f) = ''203.0.113.0/24-24-64498''"
  by (simp add: vrp_c_def IPNet_String_def networkNumberAndMask_def To4_def IP_String_def
      uitoa.simps)

lemma vrp_methods [simp]:
  "Copy (vrp_a f) = vrp_a f" "Copy (vrp_b f) = vrp_b f" "Copy (vrp_c f) = vrp_c f"
  "SetFlag (vrp_a f) g = vrp_a g" "SetFlag (vrp_b f) g = vrp_b g" "SetFlag (vrp_c f) g = vrp_c g"
  "GetFlag (vrp_a f) = f" "GetFlag (vrp_b f) = f" "GetFlag (vrp_c f) = f"
  by (simp_all add: vrp_a_def vrp_b_def vrp_c_def)

lemma example_server_simps:
  "sdCurrent example_server = []" "sdListDiff example_server = []"
  "sdListSerial example_server = []" "sdCurrentSerial example_server = 0"
  "sdMapSerial example_server = Map.empty" "keepDiff example_server = 3"
  "manualserial example_server = False" "sessId example_server = 0x1234"
  "baseVersion example_server = 1" "enforceVersion example_server = False"
  "handler example_server = True" "simpleHandler example_server = True"
  "clients example_server = []" "handlerCalls example_server = []"
  by (simp_all add: example_server_def NewServer_def example_configuration_def)

lemma example_client_simps:
  "connected example_client = True" "version example_client = 0"
  "versionset example_client = False" "transmits example_client = []"
  "quit example_client = []" "cl_handler example_client = True"
  "cl_simpleHandler example_client = True" "cl_enforceVersion example_client = False"
  "disableVersionCheck example_client = False" "ident example_client = 7"
  by (simp_all add: example_client_def Client_Start_begin_def acceptClientTCP_def
      ClientFromConn_def SetIntervals_def Let_def example_server_simps)

lemmas store_defs = AddData_def ComputeDiff_def ConvertSDListToMap_def
     AddSDsDiff_def ApplyDiff_def FLAG_ADDED_def FLAG_REMOVED_def Let_def addSerial_def
     generateSerial_def getCurrentSerial_def setSerial_def SetSerial_def

lemma example_store_simps:
  "sdListSerial example_store = [20, 21]" "sdCurrentSerial example_store = 21"
  "sdMapSerial example_store 5 = None" "sdMapSerial example_store 20 = Some 1"
  "sdListDiff example_store = [[vrp_a 1, vrp_b 1], [vrp_b 1]]"
  "sdCurrent example_store = [vrp_a 1, vrp_b 1]"
  "sessId example_store = 0x1234"
  by (simp_all add: example_store_def store_defs example_server_simps)

section \<open>Sending\<close>

lemma transmits_SendPDU [simp]:
  "transmits (SendPDU c pdu) = transmits c @ [SetVersion pdu (version c)]"
  by (simp add: SendPDU_def SendRawPDU_def)

lemma SendPDU_fields [simp]:
  "connected (SendPDU c pdu) = connected c"
  "version (SendPDU c pdu) = version c"
  "versionset (SendPDU c pdu) = versionset c"
  "quit (SendPDU c pdu) = quit c"
  "ident (SendPDU c pdu) = ident c"
  "cl_handler (SendPDU c pdu) = cl_handler c"
  "cl_simpleHandler (SendPDU c pdu) = cl_simpleHandler c"
  "cl_enforceVersion (SendPDU c pdu) = cl_enforceVersion c"
  "disableVersionCheck (SendPDU c pdu) = disableVersionCheck c"
  "curserial (SendPDU c pdu) = curserial c"
  "refreshInterval (SendPDU c pdu) = refreshInterval c"
  "retryInterval (SendPDU c pdu) = retryInterval c"
  "expireInterval (SendPDU c pdu) = expireInterval c"
  "dontSendBGPsecKeys (SendPDU c pdu) = dontSendBGPsecKeys c"
  "dontSendASPA (SendPDU c pdu) = dontSendASPA c"
  by (simp_all add: SendPDU_def SendRawPDU_def)

section \<open>The version check of a PDU\<close>

text \<open>
  C3. The claim: the version check accepts a Router Key PDU exactly at versions 1 and 2,
  an ASPA PDU exactly at version 2, and every other PDU at the versions 0, 1 and 2. The
  code refuses every PDU at version 2, the Router Key that \<^verbatim>\<open>Client.SendData\<close> sends at
  that version included, and accepts an ASPA PDU at the versions 0 and 1.
\<close>

theorem IsCorrectPDUVersion_at_version_2:
  "IsCorrectPDUVersion (PDURouterKey 2 flags ski asn spki) 2 = False
   \<and> IsCorrectPDUVersion (PDUSerialQuery 2 sess serial) 2 = False
   \<and> IsCorrectPDUVersion (PDUASPA 2 flags afi n customer providers) 2 = False
   \<and> IsCorrectPDUVersion (PDUASPA 1 flags afi n customer providers) 1 = True"
  by (simp add: IsCorrectPDUVersion_def)

text \<open>What the code accepts, for every PDU and every version.\<close>

lemma IsCorrectPDUVersion_iff:
  "IsCorrectPDUVersion pdu v \<longleftrightarrow> v \<le> 1 \<and> \<not> (GetType pdu = PDU_ID_ROUTER_KEY \<and> v = 0)"
  by (cases pdu) (auto simp add: IsCorrectPDUVersion_def PDU_ID_ROUTER_KEY_def
      PDU_ID_SERIAL_NOTIFY_def PDU_ID_SERIAL_QUERY_def PDU_ID_RESET_QUERY_def
      PDU_ID_CACHE_RESPONSE_def PDU_ID_IPV4_PREFIX_def PDU_ID_IPV6_PREFIX_def
      PDU_ID_END_OF_DATA_def PDU_ID_CACHE_RESET_def PDU_ID_ERROR_REPORT_def PDU_ID_ASPA_def
      not_less)

section \<open>The current serial and the difference since it\<close>

text \<open>
  C4. In every state of the store, the difference since the store's current serial is
  the empty list, and it is known.
\<close>

theorem diff_since_current_serial_is_empty:
  "getSDsSerialDiff s (sdCurrentSerial s) = Some ([], True)
   \<and> GetSDsSerialDiff s (fst (GetCurrentSerial s sess)) = Some ([], True)"
  by (simp add: getSDsSerialDiff_def GetSDsSerialDiff_def GetCurrentSerial_def
      getCurrentSerial_def)

lemma sdListSerial_SetSerial [simp]: "sdListSerial (SetSerial s x) = sdListSerial s"
  by (simp add: SetSerial_def setSerial_def)

lemma sdCurrentSerial_SetSerial [simp]: "sdCurrentSerial (SetSerial s x) = x"
  by (simp add: SetSerial_def setSerial_def)

lemma sdListSerial_foldl_SetSerial: "sdListSerial (foldl SetSerial s xs) = sdListSerial s"
  by (induction xs arbitrary: s) simp_all

lemma sdCurrentSerial_foldl_SetSerial:
  "sdCurrentSerial (foldl SetSerial s xs) = (if xs = [] then sdCurrentSerial s else last xs)"
  by (induction xs arbitrary: s) simp_all

text \<open>
  C9, as the claim states it, fails: with an empty history the serial that
  \<^verbatim>\<open>getCurrentSerial\<close> returns is the one \<^verbatim>\<open>SetSerial\<close> stored, here 5 and not 0.
\<close>

theorem current_serial_empty_history_counterexample:
  "sdListSerial (SetSerial example_server 5) = []
   \<and> getCurrentSerial (SetSerial example_server 5) = (5, False)
   \<and> getCurrentSerial (SetSerial example_server 5) \<noteq> (0, False)"
  by (simp add: getCurrentSerial_def example_server_simps)

text \<open>
  C9, amended. On a new server, after any sequence of \<^verbatim>\<open>SetSerial\<close> calls and no
  installed set of objects, the history is empty and \<^verbatim>\<open>getCurrentSerial\<close> returns the
  serial of the last call (0 when there was none) together with \<open>False\<close>.
\<close>

theorem current_serial_empty_history:
  "sdListSerial (foldl SetSerial (NewServer configuration sessid h sh) serials) = []
   \<and> getCurrentSerial (foldl SetSerial (NewServer configuration sessid h sh) serials)
       = (if serials = [] then 0 else last serials, False)"
  by (simp add: getCurrentSerial_def sdListSerial_foldl_SetSerial
      sdCurrentSerial_foldl_SetSerial NewServer_def)

theorem current_serial_empty_history_witness:
  "getCurrentSerial (foldl SetSerial (NewServer example_configuration 0x1234 True True) [20, 42])
     = (42, False)
   \<and> getCurrentSerial (foldl SetSerial (NewServer example_configuration 0x1234 True True) [])
     = (0, False)"
  using current_serial_empty_history [of example_configuration "0x1234" True True "[20, 42]"]
        current_serial_empty_history [of example_configuration "0x1234" True True "[]"]
  by simp

section \<open>The default event handler\<close>

text \<open>
  C6. A Serial Query whose session id is not the server's: the handler puts exactly one
  PDU on the client's channel, an Error Report with the code 0 (Corrupt Data), and then
  disconnects the client; no Cache Response and no data PDU is sent.
\<close>

theorem serial_query_session_mismatch:
  assumes "sessionId \<noteq> GetSessionId s"
  shows "\<exists>s' c'. DefaultRTREventHandler_RequestNewVersion s c sessionId serialNumber = Some (s', c')
           \<and> (s', c') = Disconnect s (SendCorruptData c)
           \<and> transmits c' = transmits c @
                [PDUErrorReport (version c) 0 [] ''Session ID mismatch: client is desynchronized'']
           \<and> \<not> connected c'
           \<and> quit c' = quit c @ [True]
           \<and> (cl_handler c \<longrightarrow> ident c \<notin> set (clients s'))"
  using assms
  by (simp add: DefaultRTREventHandler_RequestNewVersion_def Disconnect_def SendCorruptData_def
      Server_ClientDisconnected_def PDU_ERROR_CORRUPTDATA_def Let_def)

theorem serial_query_session_mismatch_witness:
  "0xDEAD \<noteq> GetSessionId example_server
   \<and> (\<exists>s' c'. DefaultRTREventHandler_RequestNewVersion example_server example_client 0xDEAD 42
                  = Some (s', c')
          \<and> transmits c' =
               [PDUErrorReport 0 0 [] ''Session ID mismatch: client is desynchronized'']
          \<and> \<not> connected c')"
proof -
  have h: "0xDEAD \<noteq> GetSessionId example_server"
    by (simp add: GetSessionId_def example_server_simps)
  from serial_query_session_mismatch [OF h, of example_client 42] h
  show ?thesis by (auto simp add: example_client_simps)
qed

text \<open>
  C7. A Serial Query with the server's session id, while the store has a current serial
  and does not know the requested serial: the handler sends a Cache Reset and nothing
  else, and the client stays connected.
\<close>

theorem serial_query_outside_window:
  assumes "sessionId = GetSessionId s"
    and "snd (GetCurrentSerial s sessionId)"
    and "GetSDsSerialDiff s serialNumber = Some (vrps, False)"
  shows "\<exists>c'. DefaultRTREventHandler_RequestNewVersion s c sessionId serialNumber = Some (s, c')
           \<and> transmits c' = transmits c @ [PDUCacheReset (version c)]
           \<and> connected c' = connected c
           \<and> quit c' = quit c"
  using assms
  by (cases "GetCurrentSerial s (GetSessionId s)")
     (simp add: DefaultRTREventHandler_RequestNewVersion_def SendCacheReset_def Let_def)

theorem serial_query_outside_window_witness:
  "0x1234 = GetSessionId example_store
   \<and> snd (GetCurrentSerial example_store 0x1234)
   \<and> GetSDsSerialDiff example_store 5 = Some ([], False)
   \<and> (\<exists>c'. DefaultRTREventHandler_RequestNewVersion example_store example_client 0x1234 5
               = Some (example_store, c')
          \<and> transmits c' = [PDUCacheReset 0]
          \<and> connected c')"
proof -
  have h1: "0x1234 = GetSessionId example_store"
    by (simp add: GetSessionId_def example_store_simps)
  have h2: "snd (GetCurrentSerial example_store 0x1234)"
    by (simp add: GetCurrentSerial_def getCurrentSerial_def example_store_simps)
  have h3: "GetSDsSerialDiff example_store 5 = Some ([], False)"
    by (simp add: GetSDsSerialDiff_def getSDsSerialDiff_def example_store_simps)
  from serial_query_outside_window [OF h1 h2 h3, of example_client] h1 h2 h3
  show ?thesis by (auto simp add: example_client_simps)
qed

text \<open>
  C8. A Reset Query while the store has no current serial (its history is empty): the
  handler sends exactly one PDU, an Error Report with the code 2 (No Data Available),
  and the client stays connected.
\<close>

theorem reset_query_without_data:
  assumes "sdListSerial s = []"
  shows "\<exists>c'. DefaultRTREventHandler_RequestCache s c = (s, c')
           \<and> transmits c' = transmits c @ [PDUErrorReport (version c) 2 [] ''No data available'']
           \<and> connected c' = connected c
           \<and> quit c' = quit c"
  using assms
  by (simp add: DefaultRTREventHandler_RequestCache_def GetCurrentSerial_def getCurrentSerial_def
      SendNoDataError_def PDU_ERROR_NODATA_def Let_def)

theorem reset_query_without_data_witness:
  "sdListSerial example_server = []
   \<and> (\<exists>c'. DefaultRTREventHandler_RequestCache example_server
               (Client_SetVersion example_client 1) = (example_server, c')
          \<and> transmits c' = [PDUErrorReport 1 2 [] ''No data available'']
          \<and> connected c')"
proof -
  have h: "sdListSerial example_server = []" by (simp add: example_server_simps)
  from reset_query_without_data [OF h, of "Client_SetVersion example_client 1"] h
  show ?thesis by (auto simp add: example_client_simps Client_SetVersion_def)
qed

section \<open>The server's \<^verbatim>\<open>HandlePDU\<close>\<close>

text \<open>
  C10. When the server enforces its version and a PDU arrives from a client whose
  version is another one, \<^verbatim>\<open>Server.HandlePDU\<close> sends the Error Report with the code 4
  (Bad Protocol Version), disconnects the client, and still hands the same PDU to the
  registered handler: the call is the last one made to the handler, with the client
  already disconnected and the Error Report on its channel.
\<close>

theorem HandlePDU_dispatches_after_version_error:
  assumes "enforceVersion s" and "version c \<noteq> baseVersion s" and "handler s"
  shows "\<exists>s' c'. Server_HandlePDU s c pdu = (s', c')
           \<and> transmits c' = transmits c @ [PDUErrorReport (version c) 4 [] ''Bad protocol version'']
           \<and> \<not> connected c'
           \<and> quit c' = quit c @ [True]
           \<and> handlerCalls s' \<noteq> []
           \<and> last (handlerCalls s') = CallHandlePDU c' pdu"
  using assms
  by (simp add: Server_HandlePDU_def Disconnect_def SendWrongVersionError_def
      Server_ClientDisconnected_def Client_GetVersion_def Client_SetVersion_def
      PDU_ERROR_BADPROTOVERSION_def Let_def)

theorem HandlePDU_dispatches_after_version_error_witness:
  "enforceVersion (SetVersionEnforced example_server True)
   \<and> version (Client_SetVersion example_client 0) \<noteq> baseVersion (SetVersionEnforced example_server True)
   \<and> handler (SetVersionEnforced example_server True)
   \<and> (\<exists>s' c'. Server_HandlePDU (SetVersionEnforced example_server True)
                  (Client_SetVersion example_client 0) (PDUResetQuery 0) = (s', c')
          \<and> transmits c' = [PDUErrorReport 0 4 [] ''Bad protocol version'']
          \<and> \<not> connected c'
          \<and> last (handlerCalls s') = CallHandlePDU c' (PDUResetQuery 0))"
proof -
  have h1: "enforceVersion (SetVersionEnforced example_server True)"
    by (simp add: SetVersionEnforced_def)
  have h2: "version (Client_SetVersion example_client 0)
              \<noteq> baseVersion (SetVersionEnforced example_server True)"
    by (simp add: SetVersionEnforced_def Client_SetVersion_def example_server_simps)
  have h3: "handler (SetVersionEnforced example_server True)"
    by (simp add: SetVersionEnforced_def example_server_simps)
  from HandlePDU_dispatches_after_version_error [OF h1 h2 h3, of "PDUResetQuery 0"] h1 h2 h3
  show ?thesis by (auto simp add: example_client_simps Client_SetVersion_def)
qed

section \<open>The version a client is served at\<close>

lemma GetVersion_SetVersion [simp]: "GetVersion (SetVersion pdu v) = v"
  by (cases pdu) simp_all

lemma settled_at_SendPDU [simp]: "settled_at v c \<Longrightarrow> settled_at v (SendPDU c pdu)"
  by (simp add: settled_at_def)

lemma settled_at_SendData [simp]: "settled_at v c \<Longrightarrow> settled_at v (SendData c sd)"
  by (cases sd) (simp_all add: SendData_def)

lemma settled_at_foldl_SendData:
  "settled_at v c \<Longrightarrow> settled_at v (foldl (\<lambda>c' d. SendData c' (Copy d)) c xs)"
  by (induction xs arbitrary: c) simp_all

lemma settled_at_SendSDs [simp]: "settled_at v c \<Longrightarrow> settled_at v (SendSDs c sess serial xs)"
  by (simp add: SendSDs_def Let_def settled_at_foldl_SendData)

lemma settled_at_errors [simp]:
  "settled_at v c \<Longrightarrow> settled_at v (SendCacheReset c)"
  "settled_at v c \<Longrightarrow> settled_at v (SendInternalError c)"
  "settled_at v c \<Longrightarrow> settled_at v (SendNoDataError c)"
  "settled_at v c \<Longrightarrow> settled_at v (SendCorruptData c)"
  "settled_at v c \<Longrightarrow> settled_at v (SendWrongVersionError c)"
  "settled_at v c \<Longrightarrow> settled_at v (Notify c sess serial)"
  by (simp_all add: SendCacheReset_def SendInternalError_def SendNoDataError_def
      SendCorruptData_def SendWrongVersionError_def Notify_def)

lemma settled_at_NotifyClients [simp]:
  "settled_at v c \<Longrightarrow> settled_at v (NotifyClients s c serial)"
  by (simp add: NotifyClients_def)

lemma Disconnect_server [simp]:
  "baseVersion (fst (Disconnect s c)) = baseVersion s"
  "enforceVersion (fst (Disconnect s c)) = enforceVersion s"
  by (simp_all add: Disconnect_def Server_ClientDisconnected_def Let_def)

lemma settled_at_Disconnect [simp]:
  "settled_at v c \<Longrightarrow> settled_at v (snd (Disconnect s c))"
  by (simp add: Disconnect_def Let_def settled_at_def)

lemma AddData_server [simp]:
  "baseVersion (AddData s vrps) = baseVersion s"
  "enforceVersion (AddData s vrps) = enforceVersion s"
  by (simp_all add: AddData_def AddSDsDiff_def addSerial_def setSerial_def Let_def
      split: prod.splits)

lemma RequestCache_keeps:
  assumes "DefaultRTREventHandler_RequestCache s c = (s', c')" and "settled_at v c"
  shows "settled_at v c' \<and> baseVersion s' = baseVersion s \<and> enforceVersion s' = enforceVersion s"
  using assms
  by (auto simp add: DefaultRTREventHandler_RequestCache_def Let_def GetCurrentSDs_def
      split: prod.splits if_splits)

lemma RequestNewVersion_keeps:
  assumes "DefaultRTREventHandler_RequestNewVersion s c sess serial = Some (s', c')"
    and "settled_at v c"
  shows "settled_at v c' \<and> baseVersion s' = baseVersion s \<and> enforceVersion s' = enforceVersion s"
proof (cases "sess \<noteq> GetSessionId s")
  case True
  with assms(1) have "(s', c') = Disconnect s (SendCorruptData c)"
    by (simp add: DefaultRTREventHandler_RequestNewVersion_def Let_def)
  then have "s' = fst (Disconnect s (SendCorruptData c))"
    and "c' = snd (Disconnect s (SendCorruptData c))"
    by (metis fst_conv, metis snd_conv)
  with assms(2) show ?thesis by simp
next
  case False
  with assms show ?thesis
    by (auto simp add: DefaultRTREventHandler_RequestNewVersion_def Let_def
        split: prod.splits if_splits option.splits)
qed

lemma passSimpleHandler_keeps:
  assumes "passSimpleHandler s c pdu = Some (s', c')" and "settled_at v c"
  shows "settled_at v c' \<and> baseVersion s' = baseVersion s \<and> enforceVersion s' = enforceVersion s"
proof (cases "cl_simpleHandler c")
  case False
  with assms show ?thesis by (simp add: passSimpleHandler_def)
next
  case True
  show ?thesis
  proof (cases pdu)
    case (PDUSerialQuery v' sess serial)
    with True assms show ?thesis
      by (cases "simpleHandler s")
         (auto simp add: passSimpleHandler_def Server_RequestNewVersion_def
           dest: RequestNewVersion_keeps)
  next
    case (PDUResetQuery v')
    with True assms show ?thesis
      by (cases "simpleHandler s")
         (auto simp add: passSimpleHandler_def Server_RequestCache_def
           dest: RequestCache_keeps)
  qed (use True assms in \<open>simp_all add: passSimpleHandler_def\<close>)
qed

lemma checkVersion_keeps:
  assumes "checkVersion s c nv = (s', c')" and "settled_at v c"
  shows "settled_at v c' \<and> baseVersion s' = baseVersion s \<and> enforceVersion s' = enforceVersion s"
proof (cases "(\<not> versionset c \<or> nv = version c)
         \<and> (nv = PROTOCOL_VERSION_2 \<or> nv = PROTOCOL_VERSION_1 \<or> nv = PROTOCOL_VERSION_0)")
  case True
  with assms show ?thesis
    by (auto simp add: checkVersion_def Client_SetVersion_def settled_at_def)
next
  case False
  with assms(1) have "(s', c') = Disconnect s (SendWrongVersionError c)"
    by (auto simp add: checkVersion_def split: if_splits)
  then have "s' = fst (Disconnect s (SendWrongVersionError c))"
    and "c' = snd (Disconnect s (SendWrongVersionError c))"
    by (metis fst_conv, metis snd_conv)
  with assms(2) show ?thesis by simp
qed

lemma HandlePDU_keeps:
  assumes "Server_HandlePDU s c pdu = (s', c')" and "settled_at (baseVersion s) c"
    and "\<not> enforceVersion s"
  shows "settled_at (baseVersion s) c' \<and> baseVersion s' = baseVersion s
           \<and> enforceVersion s' = enforceVersion s"
  using assms
  by (auto simp add: Server_HandlePDU_def Client_GetVersion_def settled_at_def Let_def
      split: if_splits)


lemma settled_at_curserial [simp]: "settled_at v (c\<lparr>curserial := x\<rparr>) = settled_at v c"
  by (simp add: settled_at_def)

lemma Client_Start_pass_keeps:
  assumes pass: "Client_Start_pass s c pkt = Some (s', c')"
    and c: "settled_at (baseVersion s) c" and s: "\<not> enforceVersion s"
  shows "settled_at (baseVersion s) c' \<and> baseVersion s' = baseVersion s
           \<and> enforceVersion s' = enforceVersion s"
proof (cases "length pkt = 0 \<or> (\<exists>err. DecodeBytes pkt = Inl err)")
  case True
  with pass have "(s', c') = Disconnect s c"
    by (auto simp add: Client_Start_pass_def split: if_splits)
  then have "s' = fst (Disconnect s c)" and "c' = snd (Disconnect s c)"
    by (metis fst_conv, metis snd_conv)
  with c show ?thesis by simp
next
  case False
  then obtain dec where dec: "DecodeBytes pkt = Inr dec" and len: "length pkt \<noteq> 0"
    by (cases "DecodeBytes pkt") auto
  obtain s1 c1 where cv:
    "(if \<not> disableVersionCheck c then checkVersion s c (GetVersion dec) else (s, c)) = (s1, c1)"
    by (cases "if \<not> disableVersionCheck c then checkVersion s c (GetVersion dec) else (s, c)")
  have k1: "settled_at (baseVersion s) c1 \<and> baseVersion s1 = baseVersion s
              \<and> enforceVersion s1 = enforceVersion s"
    using cv c checkVersion_keeps [of s c "GetVersion dec" s1 c1 "baseVersion s"]
    by (auto split: if_splits)
  obtain s2 c2 where ev:
    "(if cl_enforceVersion c1 \<and> \<not> IsCorrectPDUVersion dec (version c1)
      then Disconnect s1 (SendWrongVersionError c1) else (s1, c1)) = (s2, c2)"
    by (cases "if cl_enforceVersion c1 \<and> \<not> IsCorrectPDUVersion dec (version c1)
               then Disconnect s1 (SendWrongVersionError c1) else (s1, c1)")
  have "s2 = fst (if cl_enforceVersion c1 \<and> \<not> IsCorrectPDUVersion dec (version c1)
                  then Disconnect s1 (SendWrongVersionError c1) else (s1, c1))"
    and "c2 = snd (if cl_enforceVersion c1 \<and> \<not> IsCorrectPDUVersion dec (version c1)
                   then Disconnect s1 (SendWrongVersionError c1) else (s1, c1))"
    using ev by simp_all
  with k1 have k2: "settled_at (baseVersion s) c2 \<and> baseVersion s2 = baseVersion s
              \<and> enforceVersion s2 = enforceVersion s"
    by (simp split: if_splits)
  define c3 where "c3 = (case dec of PDUSerialQuery _ _ serialNumber \<Rightarrow> c2\<lparr>curserial := serialNumber\<rparr>
                          | _ \<Rightarrow> c2)"
  have k3: "settled_at (baseVersion s) c3"
    using k2 by (simp add: c3_def split: PDU.splits)
  obtain s4 c4 where hp:
    "(if cl_handler c3 then Server_HandlePDU s2 c3 dec else (s2, c3)) = (s4, c4)"
    by (cases "if cl_handler c3 then Server_HandlePDU s2 c3 dec else (s2, c3)")
  have k4: "settled_at (baseVersion s) c4 \<and> baseVersion s4 = baseVersion s
              \<and> enforceVersion s4 = enforceVersion s"
    using hp k2 k3 s HandlePDU_keeps [of s2 c3 dec s4 c4]
    by (auto split: if_splits)
  have "Client_Start_pass s c pkt = passSimpleHandler s4 c4 dec"
    using len dec cv ev hp [unfolded c3_def]
    by (auto simp add: Client_Start_pass_def Let_def split: if_splits)
  with pass have "passSimpleHandler s4 c4 dec = Some (s', c')" by simp
  from passSimpleHandler_keeps [OF this, of "baseVersion s"] k4 show ?thesis by simp
qed

lemma session_run_keeps:
  assumes "session_run s c evs = Some (s', c')"
    and "settled_at (baseVersion s) c" and "\<not> enforceVersion s"
  shows "settled_at (baseVersion s) c' \<and> baseVersion s' = baseVersion s"
  using assms
proof (induction s c evs rule: session_run.induct)
  case (1 s c)
  then show ?case by simp
next
  case (2 s c pkt evs)
  show ?case
  proof (cases "connected c")
    case False
    with 2 show ?thesis by simp
  next
    case True
    with "2.prems"(1) obtain s1 c1 where p: "Client_Start_pass s c pkt = Some (s1, c1)"
      and r: "session_run s1 c1 evs = Some (s', c')"
      by (auto split: option.splits)
    from Client_Start_pass_keeps [OF p "2.prems"(2) "2.prems"(3)]
    have k: "settled_at (baseVersion s) c1" "baseVersion s1 = baseVersion s"
      "enforceVersion s1 = enforceVersion s" by simp_all
    from "2.IH"(1) [OF True p refl r] k "2.prems"(3) show ?thesis by simp
  qed
next
  case (3 s c vrps evs)
  then show ?case by simp
next
  case (4 s c serialNumber evs)
  then show ?case by simp
qed


lemma length_PDUSerialQuery_Bytes [simp]: "length (PDUSerialQuery_Bytes v sess serial) = 12"
  by (simp add: PDUSerialQuery_Bytes_def)

lemma getSDsSerialDiff_cong:
  assumes "sdCurrentSerial s' = sdCurrentSerial s" and "sdMapSerial s' = sdMapSerial s"
    and "sdListDiff s' = sdListDiff s"
  shows "getSDsSerialDiff s' serial = getSDsSerialDiff s serial"
  unfolding getSDsSerialDiff_def assms ..

text \<open>
  The first pass of a client that \<^verbatim>\<open>acceptClientTCP\<close> made, over a Serial Query of
  version 2, on a server at version 1 that does not enforce its version: when the
  simple handler is called, the client has been put at version 1 and nothing was sent.
\<close>

lemma first_pass_version_2:
  assumes b: "baseVersion s = 1" and e: "\<not> enforceVersion s"
  obtains s4 c4 where
    "Client_Start_pass (fst (Client_Start_begin s (acceptClientTCP s p dB dA)))
        (snd (Client_Start_begin s (acceptClientTCP s p dB dA)))
        (PDUSerialQuery_Bytes 2 sess serial)
       = Server_RequestNewVersion s4 c4 sess serial"
    and "settled_at 1 c4" and "transmits c4 = []" and "connected c4"
    and "baseVersion s4 = 1" and "\<not> enforceVersion s4"
    and "getSDsSerialDiff s4 serial = getSDsSerialDiff s serial"
proof -
  define c0 where "c0 = snd (Client_Start_begin s (acceptClientTCP s p dB dA))"
  define s0 where "s0 = fst (Client_Start_begin s (acceptClientTCP s p dB dA))"
  have c0: "\<not> versionset c0" "connected c0" "cl_handler c0" "cl_simpleHandler c0"
    "\<not> cl_enforceVersion c0" "\<not> disableVersionCheck c0" "transmits c0 = []"
    using e by (simp_all add: c0_def Client_Start_begin_def acceptClientTCP_def
        ClientFromConn_def SetIntervals_def Let_def)
  have s0: "baseVersion s0 = 1" "\<not> enforceVersion s0" "sdCurrentSerial s0 = sdCurrentSerial s"
    "sdMapSerial s0 = sdMapSerial s" "sdListDiff s0 = sdListDiff s"
    using b e by (simp_all add: s0_def Client_Start_begin_def Server_ClientConnected_def
        acceptClientTCP_def ClientFromConn_def SetIntervals_def Let_def)
  define c3 where "c3 = (Client_SetVersion c0 2)\<lparr>curserial := serial\<rparr>"
  define r where "r = Server_HandlePDU s0 c3 (PDUSerialQuery 2 sess serial)"
  have c3: "version c3 = 2" "versionset c3" "connected c3" "cl_handler c3"
    "cl_simpleHandler c3" "transmits c3 = []"
    using c0 by (simp_all add: c3_def Client_SetVersion_def)
  have r: "settled_at 1 (snd r)" "transmits (snd r) = []" "connected (snd r)"
    "cl_simpleHandler (snd r)" "baseVersion (fst r) = 1" "\<not> enforceVersion (fst r)"
    "sdCurrentSerial (fst r) = sdCurrentSerial s" "sdMapSerial (fst r) = sdMapSerial s"
    "sdListDiff (fst r) = sdListDiff s"
    using c3 s0
    by (simp_all add: r_def Server_HandlePDU_def Client_GetVersion_def Client_SetVersion_def
        settled_at_def Let_def)
  have "Client_Start_pass s0 c0 (PDUSerialQuery_Bytes 2 sess serial)
          = passSimpleHandler (fst r) (snd r) (PDUSerialQuery 2 sess serial)"
    using c0
    by (simp add: Client_Start_pass_def DecodeBytes_def Decode_SerialQuery checkVersion_def
        PROTOCOL_VERSION_2_def Client_SetVersion_def c3_def r_def case_prod_unfold Let_def)
  also have "\<dots> = Server_RequestNewVersion (fst r) (snd r) sess serial"
    using r(4) by (simp add: passSimpleHandler_def)
  finally have "Client_Start_pass s0 c0 (PDUSerialQuery_Bytes 2 sess serial)
                  = Server_RequestNewVersion (fst r) (snd r) sess serial" .
  moreover have "getSDsSerialDiff (fst r) serial = getSDsSerialDiff s serial"
    using r by (intro getSDsSerialDiff_cong) simp_all
  ultimately show ?thesis
    using that [of "fst r" "snd r"] r unfolding s0_def c0_def by simp
qed

lemma Server_RequestNewVersion_defined:
  assumes "getSDsSerialDiff s serial \<noteq> None"
  shows "\<exists>s' c'. Server_RequestNewVersion s c sess serial = Some (s', c')"
  using assms
  by (cases "Disconnect s (SendCorruptData c)")
     (auto simp add: Server_RequestNewVersion_def DefaultRTREventHandler_RequestNewVersion_def
       GetSDsSerialDiff_def Let_def split: prod.splits option.splits)

lemma Server_RequestNewVersion_keeps:
  assumes "Server_RequestNewVersion s c sess serial = Some (s', c')" and "settled_at v c"
  shows "settled_at v c' \<and> baseVersion s' = baseVersion s \<and> enforceVersion s' = enforceVersion s"
  using assms
  by (cases "simpleHandler s")
     (auto simp add: Server_RequestNewVersion_def dest: RequestNewVersion_keeps)

text \<open>
  C5. A server whose base version is 1 and which does not enforce its version accepts a
  client; the first chunk the client sends is a Serial Query of version 2. The pass
  over that chunk ends (provided the lookup of the requested serial in the store does
  not fail) with the client at version 1, and every PDU put on the client's channel,
  in that pass and in whatever follows (further chunks, installations of new objects,
  notifications), carries the version 1.
\<close>

theorem version_downgrade:
  assumes "baseVersion s = 1" and "\<not> enforceVersion s"
    and "getSDsSerialDiff s serial \<noteq> None"
  shows "\<exists>s1 c1.
           Client_Start_pass (fst (Client_Start_begin s (acceptClientTCP s p dB dA)))
               (snd (Client_Start_begin s (acceptClientTCP s p dB dA)))
               (PDUSerialQuery_Bytes 2 sess serial)
             = Some (s1, c1)
           \<and> versionset c1 \<and> version c1 = 1
           \<and> (\<forall>pdu \<in> set (transmits c1). GetVersion pdu = 1)
           \<and> (\<forall>evs s2 c2. session_run s1 c1 evs = Some (s2, c2)
                 \<longrightarrow> version c2 = 1 \<and> (\<forall>pdu \<in> set (transmits c2). GetVersion pdu = 1))"
proof -
  from first_pass_version_2 [OF assms(1,2), of p dB dA sess serial]
  obtain s4 c4 where
    pass: "Client_Start_pass (fst (Client_Start_begin s (acceptClientTCP s p dB dA)))
        (snd (Client_Start_begin s (acceptClientTCP s p dB dA)))
        (PDUSerialQuery_Bytes 2 sess serial)
       = Server_RequestNewVersion s4 c4 sess serial"
    and c4: "settled_at 1 c4"
    and s4: "baseVersion s4 = 1" "\<not> enforceVersion s4"
    and d: "getSDsSerialDiff s4 serial = getSDsSerialDiff s serial"
    by blast
  from d assms(3) have "getSDsSerialDiff s4 serial \<noteq> None" by simp
  from Server_RequestNewVersion_defined [OF this, of c4 sess]
  obtain s1 c1 where r: "Server_RequestNewVersion s4 c4 sess serial = Some (s1, c1)" by blast
  from Server_RequestNewVersion_keeps [OF r c4] s4
  have k: "settled_at 1 c1" "baseVersion s1 = 1" "\<not> enforceVersion s1" by simp_all
  have "version c2 = 1 \<and> (\<forall>pdu \<in> set (transmits c2). GetVersion pdu = 1)"
    if "session_run s1 c1 evs = Some (s2, c2)" for evs s2 c2
    using session_run_keeps [OF that] k by (simp add: settled_at_def)
  with pass r k(1) show ?thesis by (simp add: settled_at_def)
qed


theorem version_downgrade_witness:
  "baseVersion example_store = 1 \<and> \<not> enforceVersion example_store
   \<and> getSDsSerialDiff example_store 20 = Some ([vrp_b 1], True)
   \<and> (\<exists>s1 c1.
          Client_Start_pass
              (fst (Client_Start_begin example_store
                      (acceptClientTCP example_store 7 False False)))
              (snd (Client_Start_begin example_store
                      (acceptClientTCP example_store 7 False False)))
              (PDUSerialQuery_Bytes 2 0x1234 20)
            = Some (s1, c1)
          \<and> versionset c1 \<and> version c1 = 1
          \<and> (\<forall>pdu \<in> set (transmits c1). GetVersion pdu = 1)
          \<and> (\<forall>evs s2 c2. session_run s1 c1 evs = Some (s2, c2)
                \<longrightarrow> version c2 = 1 \<and> (\<forall>pdu \<in> set (transmits c2). GetVersion pdu = 1)))"
proof -
  have h1: "baseVersion example_store = 1"
    by (simp add: example_store_def SetSerial_def setSerial_def example_server_simps)
  have h2: "\<not> enforceVersion example_store"
    by (simp add: example_store_def SetSerial_def setSerial_def example_server_simps)
  have h3: "getSDsSerialDiff example_store 20 = Some ([vrp_b 1], True)"
    by (simp add: getSDsSerialDiff_def example_store_simps)
  then have h3': "getSDsSerialDiff example_store 20 \<noteq> None" by simp
  from version_downgrade [OF h1 h2 h3', of 7 False False "0x1234"] h1 h2 h3
  show ?thesis by simp
qed

section \<open>Differences\<close>

lemma Copy_id [simp]: "Copy x = x"
  by (cases x) simp_all

lemma HashKey_SetFlag [simp]: "HashKey (SetFlag x f) = HashKey x"
  by (cases x) simp_all

lemma GetFlag_SetFlag [simp]: "GetFlag (SetFlag x f) = f"
  by (cases x) simp_all

lemma ConvertSDListToMap_snoc:
  "ConvertSDListToMap (xs @ [x]) = (ConvertSDListToMap xs)(HashKey x \<mapsto> x)"
  by (simp add: ConvertSDListToMap_def)

lemma ConvertSDListToMap_None:
  "ConvertSDListToMap xs k = None \<longleftrightarrow> k \<notin> HashKey ` set xs"
  by (induction xs rule: rev_induct) (auto simp add: ConvertSDListToMap_snoc ConvertSDListToMap_def)

lemma ConvertSDListToMap_Some:
  "ConvertSDListToMap xs k = Some v \<Longrightarrow> v \<in> set xs \<and> HashKey v = k"
  by (induction xs rule: rev_induct)
     (auto simp add: ConvertSDListToMap_snoc ConvertSDListToMap_def split: if_splits)

lemma set_concat_map_if:
  "set (concat (map (\<lambda>x. if P x then [f x] else []) xs)) = f ` {x \<in> set xs. P x}"
  by (induction xs) auto

lemma ComputeDiff_added:
  "set (fst (ComputeDiff new prev))
     = (\<lambda>x. SetFlag x FLAG_ADDED) ` {x \<in> set new. HashKey x \<notin> HashKey ` set prev}"
  by (auto simp add: ComputeDiff_def Let_def ConvertSDListToMap_None split: if_splits)

lemma ComputeDiff_removed:
  "set (fst (snd (ComputeDiff new prev)))
     = (\<lambda>x. SetFlag x FLAG_REMOVED) ` {x \<in> set prev. HashKey x \<notin> HashKey ` set new}"
  by (auto simp add: ComputeDiff_def Let_def ConvertSDListToMap_None split: if_splits)

text \<open>Which objects \<^verbatim>\<open>ApplyDiff\<close> returns.\<close>

lemma set_ApplyDiff:
  "set (ApplyDiff diff prev)
     = {x \<in> set prev. HashKey x \<notin> HashKey ` set diff}
       \<union> {d \<in> set diff. GetFlag d = FLAG_ADDED}
       \<union> {d \<in> set diff. GetFlag d = FLAG_REMOVED
             \<and> (case ConvertSDListToMap prev (HashKey d) of
                    None \<Rightarrow> True | Some cvrp \<Rightarrow> GetFlag cvrp = FLAG_REMOVED)}"
proof -
  have k: "set (concat (map (\<lambda>vrp. if ConvertSDListToMap diff (HashKey vrp) = None
                                    then [Copy vrp] else []) prev))
             = {x \<in> set prev. HashKey x \<notin> HashKey ` set diff}"
    by (auto simp add: ConvertSDListToMap_None split: if_splits)
  have c: "set (concat (map (\<lambda>vrp.
                  if GetFlag vrp = FLAG_ADDED then [Copy vrp]
                  else if GetFlag vrp = FLAG_REMOVED then
                    (case m (HashKey vrp) of
                       None \<Rightarrow> [Copy vrp]
                     | Some cvrp \<Rightarrow> if GetFlag cvrp = FLAG_REMOVED then [Copy vrp] else [])
                  else []) ds))
             = {d \<in> set ds. GetFlag d = FLAG_ADDED}
               \<union> {d \<in> set ds. GetFlag d = FLAG_REMOVED
                     \<and> (case m (HashKey d) of
                            None \<Rightarrow> True | Some cvrp \<Rightarrow> GetFlag cvrp = FLAG_REMOVED)}"
    for m ds
    by (induction ds) (auto simp add: FLAG_ADDED_def FLAG_REMOVED_def split: option.splits)
  show ?thesis
    unfolding ApplyDiff_def Let_def set_append k c by (simp add: Un_assoc)
qed

text \<open>
  Installing the difference between a new list and a current list whose objects are all
  flagged as added: the result has the keys of the new list, all flagged as added.
\<close>

lemma ApplyDiff_ComputeDiff:
  assumes flags: "\<forall>x \<in> set prev. GetFlag x = FLAG_ADDED"
    and cd: "ComputeDiff new prev = (added, removed, unchanged)"
  shows "HashKey ` set (ApplyDiff (added @ removed) prev) = HashKey ` set new"
    and "\<forall>x \<in> set (ApplyDiff (added @ removed) prev). GetFlag x = FLAG_ADDED"
proof -
  have a: "set added = (\<lambda>x. SetFlag x FLAG_ADDED) ` {x \<in> set new. HashKey x \<notin> HashKey ` set prev}"
    using ComputeDiff_added [of new prev] cd by simp
  have r: "set removed
             = (\<lambda>x. SetFlag x FLAG_REMOVED) ` {x \<in> set prev. HashKey x \<notin> HashKey ` set new}"
    using ComputeDiff_removed [of new prev] cd by simp
  have ne: "FLAG_ADDED \<noteq> FLAG_REMOVED" by (simp add: FLAG_ADDED_def FLAG_REMOVED_def)
  have ka: "HashKey ` set added = HashKey ` set new - HashKey ` set prev"
    unfolding a by (auto simp add: image_iff)
  have kr: "HashKey ` set removed = HashKey ` set prev - HashKey ` set new"
    unfolding r by (auto simp add: image_iff)
  have fa: "\<forall>d \<in> set added. GetFlag d = FLAG_ADDED" unfolding a by auto
  have fr: "\<forall>d \<in> set removed. GetFlag d = FLAG_REMOVED" unfolding r by auto
  have third: "{d \<in> set (added @ removed). GetFlag d = FLAG_REMOVED
             \<and> (case ConvertSDListToMap prev (HashKey d) of
                    None \<Rightarrow> True | Some cvrp \<Rightarrow> GetFlag cvrp = FLAG_REMOVED)} = {}"
  proof -
    have False if d: "d \<in> set (added @ removed)" and f: "GetFlag d = FLAG_REMOVED"
      and m: "case ConvertSDListToMap prev (HashKey d) of
                    None \<Rightarrow> True | Some cvrp \<Rightarrow> GetFlag cvrp = FLAG_REMOVED" for d
    proof -
      from d f fa ne have "d \<in> set removed" by auto
      then have "HashKey d \<in> HashKey ` set prev" using kr by auto
      then obtain cvrp where s: "ConvertSDListToMap prev (HashKey d) = Some cvrp"
        using ConvertSDListToMap_None [of prev "HashKey d"] by (cases "ConvertSDListToMap prev (HashKey d)") auto
      from ConvertSDListToMap_Some [OF s] flags have "GetFlag cvrp = FLAG_ADDED" by simp
      with m s ne show False by simp
    qed
    then show ?thesis by blast
  qed
  have second: "{d \<in> set (added @ removed). GetFlag d = FLAG_ADDED} = set added"
    using fa fr ne by auto
  have s: "set (ApplyDiff (added @ removed) prev)
             = {x \<in> set prev. HashKey x \<notin> HashKey ` set (added @ removed)} \<union> set added"
    unfolding set_ApplyDiff third second by simp
  show "\<forall>x \<in> set (ApplyDiff (added @ removed) prev). GetFlag x = FLAG_ADDED"
    unfolding s using flags fa by auto
  have "HashKey ` set (ApplyDiff (added @ removed) prev)
          = (HashKey ` set prev - (HashKey ` set added \<union> HashKey ` set removed))
            \<union> HashKey ` set added"
    unfolding s by (auto simp add: image_iff)
  also have "\<dots> = HashKey ` set new"
    unfolding ka kr by auto
  finally show "HashKey ` set (ApplyDiff (added @ removed) prev) = HashKey ` set new" .
qed


section \<open>Installing a difference\<close>

lemma addSerial_eq:
  "addSerial s serial
     = (take (evicted s) (sdListSerial s),
        s\<lparr>sdListSerial := drop (evicted s) (sdListSerial s) @ [serial]\<rparr>)"
  by (simp add: addSerial_def evicted_def Let_def)

lemma evicted_le: "evicted s \<le> length (sdListSerial s)"
  unfolding evicted_def by auto

lemma AddSDsDiff_fields:
  "sdListSerial (AddSDsDiff s d) = drop (evicted s) (sdListSerial s) @ [generateSerial s]"
  "sdCurrent (AddSDsDiff s d) = ApplyDiff d (sdCurrent s)"
  "sdCurrentSerial (AddSDsDiff s d) = generateSerial s"
  "keepDiff (AddSDsDiff s d) = keepDiff s"
  "manualserial (AddSDsDiff s d) = manualserial s"
  by (simp_all add: AddSDsDiff_def addSerial_eq setSerial_def Let_def)

lemma AddSDsDiff_sdListDiff:
  assumes "length (sdListDiff s) = length (sdListSerial s)"
  shows "sdListDiff (AddSDsDiff s d)
           = drop (evicted s) (map (ApplyDiff d) (sdListDiff s) @ [d])"
proof -
  have "evicted s = 0" if "\<not> (int (length (sdListDiff s) + 1) \<ge> keepDiff s \<and> keepDiff s > 0)"
    using that assms by (auto simp add: evicted_def)
  then show ?thesis
    using evicted_le [of s]
    by (auto simp add: AddSDsDiff_def addSerial_eq setSerial_def Let_def min_def)
qed

lemma foldl_delete:
  "foldl (\<lambda>m k. m(k := None)) m ks x = (if x \<in> set ks then None else m x)"
  by (induction ks arbitrary: m) auto

lemma AddSDsDiff_sdMapSerial_current:
  assumes "sdCurrentSerial s \<notin> set (take (evicted s) (sdListSerial s))"
  shows "sdMapSerial (AddSDsDiff s d) (sdCurrentSerial s)
           = Some (int (length (sdListDiff (AddSDsDiff s d))) - 1)"
  using assms
  by (simp add: AddSDsDiff_def addSerial_eq setSerial_def getCurrentSerial_def Let_def
      foldl_delete)


section \<open>The store after a sequence of installations\<close>

lemma map_Copy [simp]: "map Copy xs = xs"
  by (induction xs) simp_all

lemma AddData_eq:
  "AddData s vrps
     = AddSDsDiff s (fst (ComputeDiff vrps (sdCurrent s))
                     @ fst (snd (ComputeDiff vrps (sdCurrent s))))"
  by (simp add: AddData_def case_prod_unfold Let_def)

lemma consecutive_step:
  fixes xs :: "uint32 list"
  assumes c: "\<forall>j < length xs. xs ! j = xs ! 0 + word_of_nat j"
    and ne: "xs \<noteq> []" and e: "e < length xs"
  shows "\<forall>j < length (drop e xs @ [last xs + 1]).
           (drop e xs @ [last xs + 1]) ! j = (drop e xs @ [last xs + 1]) ! 0 + word_of_nat j"
proof (intro allI impI)
  fix j assume j: "j < length (drop e xs @ [last xs + 1])"
  let ?ys = "drop e xs @ [last xs + 1]"
  have y0: "?ys ! 0 = xs ! 0 + word_of_nat e"
    using e c [rule_format, of e] by (simp add: nth_append)
  show "?ys ! j = ?ys ! 0 + word_of_nat j"
  proof (cases "j < length xs - e")
    case True
    then have "?ys ! j = xs ! (e + j)" by (simp add: nth_append)
    also have "\<dots> = xs ! 0 + word_of_nat (e + j)"
      using c [rule_format, of "e + j"] True by linarith
    finally show ?thesis by (simp add: y0)
  next
    case False
    with j have je: "j = length xs - e" by simp
    have "length xs - 1 < length xs" using ne by simp
    from c [rule_format, OF this] last_conv_nth [OF ne]
    have l: "last xs = xs ! 0 + word_of_nat (length xs - 1)"
      by metis
    have "?ys ! j = last xs + 1" using je by (simp add: nth_append)
    also have "\<dots> = xs ! 0 + word_of_nat (Suc (length xs - 1))" using l by simp
    also have "Suc (length xs - 1) = e + j" using je e by simp
    finally show ?thesis by (simp add: y0)
  qed
qed

lemma store_invD:
  assumes "store_inv s"
  shows "\<not> manualserial s"
    and "length (sdListDiff s) = length (sdListSerial s)"
    and "sdListSerial s \<noteq> [] \<Longrightarrow> last (sdListSerial s) = sdCurrentSerial s"
    and "\<And>j. j < length (sdListSerial s)
           \<Longrightarrow> sdListSerial s ! j = sdListSerial s ! 0 + word_of_nat j"
    and "keepDiff s > 0 \<Longrightarrow> int (length (sdListSerial s)) \<le> keepDiff s + 1"
    and "\<forall>x \<in> set (sdCurrent s). GetFlag x = FLAG_ADDED"
  using assms unfolding store_inv_def by blast+

lemma store_inv_NewServer: "store_inv (NewServer configuration sessid h sh)"
  by (simp add: store_inv_def NewServer_def)

lemma store_inv_AddData:
  assumes inv: "store_inv s"
  shows "store_inv (AddData s vrps)"
proof -
  define d where "d = fst (ComputeDiff vrps (sdCurrent s))
                       @ fst (snd (ComputeDiff vrps (sdCurrent s)))"
  have ad: "AddData s vrps = AddSDsDiff s d" by (simp add: AddData_eq d_def)
  note m = store_invD(1) [OF inv] and len = store_invD(2) [OF inv]
    and flg = store_invD(6) [OF inv]
  have con: "\<forall>j < length (sdListSerial s). sdListSerial s ! j = sdListSerial s ! 0 + word_of_nat j"
    using store_invD(4) [OF inv] by blast
  have e: "evicted s \<le> length (sdListSerial s)" by (rule evicted_le)
  have e': "evicted s < length (sdListSerial s)" if "sdListSerial s \<noteq> []"
    using that unfolding evicted_def by auto
  have i2: "length (sdListDiff (AddSDsDiff s d)) = length (sdListSerial (AddSDsDiff s d))"
    using e len by (simp add: AddSDsDiff_sdListDiff AddSDsDiff_fields)
  have i3: "last (sdListSerial (AddSDsDiff s d)) = sdCurrentSerial (AddSDsDiff s d)"
    by (simp add: AddSDsDiff_fields)
  have i4: "\<forall>j < length (sdListSerial (AddSDsDiff s d)).
              sdListSerial (AddSDsDiff s d) ! j
                = sdListSerial (AddSDsDiff s d) ! 0 + word_of_nat j"
  proof (cases "sdListSerial s = []")
    case True
    then show ?thesis by (simp add: AddSDsDiff_fields)
  next
    case False
    then have g: "generateSerial s = last (sdListSerial s) + 1"
      using m by (simp add: generateSerial_def)
    from consecutive_step [OF con False e' [OF False]] show ?thesis
      by (simp only: AddSDsDiff_fields g)
  qed
  have i5: "keepDiff s > 0 \<longrightarrow> int (length (sdListSerial (AddSDsDiff s d))) \<le> keepDiff s + 1"
    using e by (auto simp add: AddSDsDiff_fields evicted_def)
  have cd: "ComputeDiff vrps (sdCurrent s)
              = (fst (ComputeDiff vrps (sdCurrent s)),
                 fst (snd (ComputeDiff vrps (sdCurrent s))),
                 snd (snd (ComputeDiff vrps (sdCurrent s))))" by simp
  have i6: "\<forall>x \<in> set (sdCurrent (AddSDsDiff s d)). GetFlag x = FLAG_ADDED"
    using ApplyDiff_ComputeDiff(2) [OF flg cd] by (simp add: AddSDsDiff_fields d_def)
  have i1: "\<not> manualserial (AddSDsDiff s d)" using m by (simp add: AddSDsDiff_fields)
  have i5': "keepDiff (AddSDsDiff s d) > 0
               \<longrightarrow> int (length (sdListSerial (AddSDsDiff s d))) \<le> keepDiff (AddSDsDiff s d) + 1"
    using i5 by (simp add: AddSDsDiff_fields(4))
  show ?thesis
    unfolding ad store_inv_def
    using i1 i2 i3 i4 i5' i6 by blast
qed

lemma store_inv_foldl_AddData: "store_inv s \<Longrightarrow> store_inv (foldl AddData s snapshots)"
  by (induction snapshots arbitrary: s) (simp_all add: store_inv_AddData)

lemma sdListSerial_AddData_nonempty: "sdListSerial (AddData s vrps) \<noteq> []"
  by (simp add: AddData_eq AddSDsDiff_fields)

lemma sdListSerial_foldl_AddData_nonempty:
  "snapshots \<noteq> [] \<Longrightarrow> sdListSerial (foldl AddData s snapshots) \<noteq> []"
  by (induction snapshots arbitrary: s rule: rev_induct) (simp_all add: sdListSerial_AddData_nonempty)

lemma keepDiff_foldl_AddData: "keepDiff (foldl AddData s snapshots) = keepDiff s"
  by (induction snapshots arbitrary: s) (simp_all add: AddData_eq AddSDsDiff_fields)


lemma current_not_evicted:
  assumes inv: "store_inv s" and ne: "sdListSerial s \<noteq> []" and k: "keepDiff s < 2 ^ 32"
  shows "sdCurrentSerial s \<notin> set (take (evicted s) (sdListSerial s))"
proof
  let ?xs = "sdListSerial s"
  assume "sdCurrentSerial s \<in> set (take (evicted s) ?xs)"
  then obtain j where j: "j < evicted s" "j < length ?xs" and eq: "?xs ! j = sdCurrentSerial s"
    by (auto simp add: in_set_conv_nth)
  have cur: "sdCurrentSerial s = last ?xs"
    using store_invD(3) [OF inv ne] by simp
  have con: "\<forall>j < length ?xs. ?xs ! j = ?xs ! 0 + word_of_nat j"
    using store_invD(4) [OF inv] by blast
  have bnd: "keepDiff s > 0 \<longrightarrow> int (length ?xs) \<le> keepDiff s + 1"
    using store_invD(5) [OF inv] by blast
  from j(1) have kp: "keepDiff s > 0" and ev: "evicted s = nat (int (length ?xs) - keepDiff s)"
    by (auto simp add: evicted_def split: if_splits)
  have l1: "length ?xs - 1 < length ?xs" using ne by simp
  have "?xs ! 0 + word_of_nat j = ?xs ! 0 + word_of_nat (length ?xs - 1)"
    using con [rule_format, OF j(2)] con [rule_format, OF l1] eq cur last_conv_nth [OF ne]
    by metis
  then have w: "(word_of_nat j :: uint32) = word_of_nat (length ?xs - 1)" by simp
  have b1: "length ?xs - 1 < 2 ^ 32" using bnd kp k by auto
  have b2: "j < 2 ^ 32" using j(1) ev kp b1 by auto
  from w have "unat (word_of_nat j :: uint32) = unat (word_of_nat (length ?xs - 1) :: uint32)"
    by simp
  then have "j = length ?xs - 1" using b1 b2 by (simp add: unat_of_nat)
  with j(1) ev kp show False by auto
qed

lemma last_drop_snoc: "e \<le> length ys \<Longrightarrow> last (drop e (ys @ [d])) = d"
  by simp

text \<open>What one installation leaves in the store.\<close>

lemma AddData_installs:
  assumes inv: "store_inv s"
  shows "HashKey ` set (sdCurrent (AddData s vrps)) = HashKey ` set vrps"
    and "sdListDiff (AddData s vrps) \<noteq> []"
    and "ApplyDiff (last (sdListDiff (AddData s vrps))) (sdCurrent s) = sdCurrent (AddData s vrps)"
    and "sdListSerial s \<noteq> [] \<Longrightarrow> keepDiff s < 2 ^ 32 \<Longrightarrow>
           getSDsSerialDiff (AddData s vrps) (sdCurrentSerial s)
             = Some (last (sdListDiff (AddData s vrps)), True)"
proof -
  define d where "d = fst (ComputeDiff vrps (sdCurrent s))
                       @ fst (snd (ComputeDiff vrps (sdCurrent s)))"
  have ad: "AddData s vrps = AddSDsDiff s d" by (simp add: AddData_eq d_def)
  note m = store_invD(1) [OF inv] and len = store_invD(2) [OF inv]
    and flg = store_invD(6) [OF inv]
  have cd: "ComputeDiff vrps (sdCurrent s)
              = (fst (ComputeDiff vrps (sdCurrent s)),
                 fst (snd (ComputeDiff vrps (sdCurrent s))),
                 snd (snd (ComputeDiff vrps (sdCurrent s))))" by simp
  show "HashKey ` set (sdCurrent (AddData s vrps)) = HashKey ` set vrps"
    using ApplyDiff_ComputeDiff(1) [OF flg cd] by (simp add: ad AddSDsDiff_fields d_def)
  have e: "evicted s \<le> length (map (ApplyDiff d) (sdListDiff s))"
    using evicted_le [of s] len by simp
  have dl: "sdListDiff (AddData s vrps) = drop (evicted s) (map (ApplyDiff d) (sdListDiff s) @ [d])"
    unfolding ad by (rule AddSDsDiff_sdListDiff [OF len])
  show ne: "sdListDiff (AddData s vrps) \<noteq> []"
    using e by (simp add: dl)
  have la: "last (sdListDiff (AddData s vrps)) = d"
    unfolding dl using e by (rule last_drop_snoc)
  show "ApplyDiff (last (sdListDiff (AddData s vrps))) (sdCurrent s) = sdCurrent (AddData s vrps)"
    by (simp add: la) (simp add: ad AddSDsDiff_fields)
  show "getSDsSerialDiff (AddData s vrps) (sdCurrentSerial s)
          = Some (last (sdListDiff (AddData s vrps)), True)"
    if sne: "sdListSerial s \<noteq> []" and k: "keepDiff s < 2 ^ 32"
  proof -
    note cur = store_invD(3) [OF inv sne]
    have g: "sdCurrentSerial (AddData s vrps) = sdCurrentSerial s + 1"
      using m sne cur by (simp add: ad AddSDsDiff_fields generateSerial_def)
    have neq: "sdCurrentSerial s \<noteq> sdCurrentSerial (AddData s vrps)"
      by (simp add: g)
    have mp: "sdMapSerial (AddData s vrps) (sdCurrentSerial s)
                = Some (int (length (sdListDiff (AddData s vrps))) - 1)"
      unfolding ad
      by (rule AddSDsDiff_sdMapSerial_current) (rule current_not_evicted [OF inv sne k])
    have pos: "0 < length (sdListDiff (AddData s vrps))" using ne by simp
    then have idx: "nat (int (length (sdListDiff (AddData s vrps))) - 1)
                      = length (sdListDiff (AddData s vrps)) - 1" by simp
    show ?thesis
      using neq mp pos
      by (simp add: getSDsSerialDiff_def idx last_conv_nth [OF ne])
  qed
qed


lemma sdCurrent_foldl_AddData:
  "store_inv s \<Longrightarrow> snapshots \<noteq> []
     \<Longrightarrow> HashKey ` set (sdCurrent (foldl AddData s snapshots)) = HashKey ` set (last snapshots)"
proof (induction snapshots arbitrary: s rule: rev_induct)
  case Nil
  then show ?case by simp
next
  case (snoc x xs)
  have "store_inv (foldl AddData s xs)" using snoc.prems(1) by (rule store_inv_foldl_AddData)
  from AddData_installs(1) [OF this] show ?case by simp
qed

lemma neq_by_member: "x \<in> A \<Longrightarrow> x \<notin> B \<Longrightarrow> A \<noteq> B"
  by blast

section \<open>Installing a sequence of snapshots\<close>

text \<open>
  C2, as the claim states it, fails: the differences kept in the history are not the
  steps from one snapshot to the next. Every installation applies its difference to
  each stored one, and the map of serials gives, for a serial, the difference from that
  serial's snapshot to the current one. After installing \<open>{a}\<close>, \<open>{a, b}\<close> and
  \<open>{a, b, c}\<close> (serials 0, 1, 2), what the store returns for the serial 1 is \<open>+c\<close> and what
  it keeps at the position of the serial 1 is \<open>+b +c\<close>; applied to the snapshot \<open>{a}\<close> of the
  serial 0, neither gives \<open>{a, b}\<close>.
\<close>

theorem stored_diffs_counterexample:
  "sdListSerial (foldl AddData example_server
       [[vrp_a 0], [vrp_a 0, vrp_b 0], [vrp_a 0, vrp_b 0, vrp_c 0]]) = [0, 1, 2]
   \<and> sdCurrent (foldl AddData example_server [[vrp_a 0]]) = [vrp_a 1]
   \<and> getSDsSerialDiff (foldl AddData example_server
         [[vrp_a 0], [vrp_a 0, vrp_b 0], [vrp_a 0, vrp_b 0, vrp_c 0]]) 1
       = Some ([vrp_c 1], True)
   \<and> HashKey ` set (ApplyDiff [vrp_c 1] [vrp_a 1]) \<noteq> HashKey ` set [vrp_a 0, vrp_b 0]
   \<and> sdListDiff (foldl AddData example_server
         [[vrp_a 0], [vrp_a 0, vrp_b 0], [vrp_a 0, vrp_b 0, vrp_c 0]]) ! 1
       = [vrp_b 1, vrp_c 1]
   \<and> HashKey ` set (ApplyDiff [vrp_b 1, vrp_c 1] [vrp_a 1]) \<noteq> HashKey ` set [vrp_a 0, vrp_b 0]"
proof -
  have n1: "HashKey ` set (ApplyDiff [vrp_c 1] [vrp_a 1]) \<noteq> HashKey ` set [vrp_a 0, vrp_b 0]"
    by (rule neq_by_member [of "''203.0.113.0/24-24-64498''"]) (simp_all add: store_defs)
  have n2: "HashKey ` set (ApplyDiff [vrp_b 1, vrp_c 1] [vrp_a 1])
              \<noteq> HashKey ` set [vrp_a 0, vrp_b 0]"
    by (rule neq_by_member [of "''203.0.113.0/24-24-64498''"]) (simp_all add: store_defs)
  show ?thesis
    using n1 n2 by (simp add: store_defs example_server_simps getSDsSerialDiff_def)
qed

text \<open>
  C2, amended. Snapshots are installed one after the other into a new store, with
  automatic serials. After each installation the current snapshot has exactly the
  fingerprints of the snapshot just installed; the difference the installation appends
  to the history, applied to the snapshot that was current before (empty before the
  first installation, otherwise with the fingerprints of the snapshot installed
  before), gives the new current snapshot; and from the second installation on (with
  \<^verbatim>\<open>keepDiff\<close> below \<open>2^32\<close>) that difference is what the store returns, as known, for
  the serial that was current before. Nothing is said about the differences of older
  serials, which every installation rewrites.
\<close>

theorem install_snapshot:
  assumes "st = foldl AddData (NewServer configuration sessid h sh) snapshots"
  shows "HashKey ` set (sdCurrent (AddData st S)) = HashKey ` set S
         \<and> (snapshots = [] \<longrightarrow> sdCurrent st = [])
         \<and> (snapshots \<noteq> [] \<longrightarrow> HashKey ` set (sdCurrent st) = HashKey ` set (last snapshots))
         \<and> sdListDiff (AddData st S) \<noteq> []
         \<and> ApplyDiff (last (sdListDiff (AddData st S))) (sdCurrent st) = sdCurrent (AddData st S)
         \<and> (snapshots \<noteq> [] \<and> KeepDifference configuration < 2 ^ 32
              \<longrightarrow> getSDsSerialDiff (AddData st S) (sdCurrentSerial st)
                    = Some (last (sdListDiff (AddData st S)), True))"
proof -
  have inv0: "store_inv (NewServer configuration sessid h sh)" by (rule store_inv_NewServer)
  then have inv: "store_inv st" unfolding assms by (rule store_inv_foldl_AddData)
  have k: "keepDiff st = KeepDifference configuration"
    unfolding assms by (simp add: keepDiff_foldl_AddData NewServer_def)
  have e: "sdCurrent st = []" if "snapshots = []"
    using that unfolding assms by (simp add: NewServer_def)
  have p: "HashKey ` set (sdCurrent st) = HashKey ` set (last snapshots)" if "snapshots \<noteq> []"
    unfolding assms using inv0 that by (rule sdCurrent_foldl_AddData)
  have n: "sdListSerial st \<noteq> []" if "snapshots \<noteq> []"
    unfolding assms using that by (rule sdListSerial_foldl_AddData_nonempty)
  from AddData_installs [OF inv, of S] e p n k show ?thesis by simp
qed

theorem install_snapshot_witness:
  "HashKey ` set (sdCurrent (AddData (foldl AddData example_server [[vrp_a 0], [vrp_a 0, vrp_b 0]])
                               [vrp_b 0, vrp_c 0]))
     = HashKey ` set [vrp_b 0, vrp_c 0]
   \<and> sdCurrent (foldl AddData example_server [[vrp_a 0], [vrp_a 0, vrp_b 0]]) = [vrp_a 1, vrp_b 1]
   \<and> last (sdListDiff (AddData (foldl AddData example_server [[vrp_a 0], [vrp_a 0, vrp_b 0]])
                           [vrp_b 0, vrp_c 0]))
       = [vrp_c 1, vrp_a 0]
   \<and> ApplyDiff [vrp_c 1, vrp_a 0] [vrp_a 1, vrp_b 1]
       = sdCurrent (AddData (foldl AddData example_server [[vrp_a 0], [vrp_a 0, vrp_b 0]])
                      [vrp_b 0, vrp_c 0])
   \<and> sdCurrentSerial (foldl AddData example_server [[vrp_a 0], [vrp_a 0, vrp_b 0]]) = 1
   \<and> getSDsSerialDiff (AddData (foldl AddData example_server [[vrp_a 0], [vrp_a 0, vrp_b 0]])
                          [vrp_b 0, vrp_c 0]) 1
       = Some ([vrp_c 1, vrp_a 0], True)"
proof -
  have c: "sdCurrent (foldl AddData example_server [[vrp_a 0], [vrp_a 0, vrp_b 0]])
             = [vrp_a 1, vrp_b 1]"
    by (simp add: store_defs example_server_simps)
  have l: "last (sdListDiff (AddData (foldl AddData example_server [[vrp_a 0], [vrp_a 0, vrp_b 0]])
                               [vrp_b 0, vrp_c 0]))
             = [vrp_c 1, vrp_a 0]"
    by (simp add: store_defs example_server_simps)
  have n: "sdCurrentSerial (foldl AddData example_server [[vrp_a 0], [vrp_a 0, vrp_b 0]]) = 1"
    by (simp add: store_defs example_server_simps)
  have k: "KeepDifference example_configuration < 2 ^ 32"
    by (simp add: example_configuration_def)
  from install_snapshot [of "foldl AddData example_server [[vrp_a 0], [vrp_a 0, vrp_b 0]]"
        example_configuration "0x1234" True True "[[vrp_a 0], [vrp_a 0, vrp_b 0]]"
        "[vrp_b 0, vrp_c 0]"]
  show ?thesis
    unfolding c l n using k by (simp add: example_server_def)
qed

text \<open>
  The differences of older serials are not always the way from that serial's snapshot
  to the current one either. When an object is removed, added again and removed again,
  the difference kept for a serial at which the object was present ends up empty:
  after \<open>{a}\<close>, \<open>{}\<close>, \<open>{a}\<close>, \<open>{}\<close> (serials 0 to 3) the store returns the empty difference
  for the serial 0, whose snapshot holds \<open>a\<close>, while the current snapshot is empty.
\<close>

lemma stale_difference_after_readding:
  "getSDsSerialDiff (foldl AddData example_server [[vrp_a 0], [], [vrp_a 0], []]) 0
     = Some ([], True)
   \<and> sdCurrent (foldl AddData example_server [[vrp_a 0]]) = [vrp_a 1]
   \<and> sdCurrent (foldl AddData example_server [[vrp_a 0], [], [vrp_a 0], []]) = []
   \<and> sdCurrentSerial (foldl AddData example_server [[vrp_a 0], [], [vrp_a 0], []]) = 3"
  by (simp add: store_defs example_server_simps getSDsSerialDiff_def)

end
